theory Spec2Isabelle
  imports Main "HOL-Library.Char_ord" "HOL-Library.List_Lexorder" "HOL-Library.Multiset"
begin

section \<open>Data model of the package tree\<close>

text \<open>
  The nodes of \<^verbatim>\<open>quilt/tools/core.py\<close> as \<^verbatim>\<open>package.py\<close> uses them. A Python
  \<^verbatim>\<open>dict\<close> is an association list in insertion order with unique keys, so that the
  order in which a tree was built is visible in the model. Metadata values are the
  strings and \<^verbatim>\<open>None\<close> that \<^verbatim>\<open>_add_to_contents\<close> stores.
\<close>

datatype pyval = PNone | PStr string

type_synonym metadata = "(string \<times> pyval) list"

datatype node =
    GroupNode "(string \<times> node) list"
  | TableNode "string list" string metadata
  | FileNode "string list" metadata

text \<open>
  Exceptions. A message built with \<^verbatim>\<open>str.format\<close> is kept as its template and its
  arguments: \<^verbatim>\<open>TypeError("... {!r}".format(x))\<close> is \<open>TypeError ''... {!r}'' [x]\<close>.
  \<open>AttributeError\<close> is what Python raises for \<^verbatim>\<open>node.children\<close> on a node without
  that attribute, \<open>IOError\<close> what a failing file operation raises.
\<close>

datatype exn =
    TypeError string "string list"
  | KeyError string string
  | AttributeError
  | AssertionError string
  | ValueError string
  | IOError
  | PackageException string "string list"

fun exn_class :: "exn \<Rightarrow> string" where
  "exn_class (TypeError t a) = ''TypeError''"
| "exn_class (KeyError a b) = ''KeyError''"
| "exn_class AttributeError = ''AttributeError''"
| "exn_class (AssertionError m) = ''AssertionError''"
| "exn_class (ValueError m) = ''ValueError''"
| "exn_class IOError = ''IOError''"
| "exn_class (PackageException t a) = ''PackageException''"

subsection \<open>Python strings and dicts\<close>

text \<open>\<^verbatim>\<open>s.lstrip('/')\<close>, \<^verbatim>\<open>s.replace('/', '.')\<close> and \<^verbatim>\<open>s.split(sep)\<close> for a one-character
  separator (the result always has at least one element), \<^verbatim>\<open>sep.join(xs)\<close>.\<close>

definition lstrip_slash :: "string \<Rightarrow> string" where
  "lstrip_slash s = dropWhile (\<lambda>c. c = CHR ''/'') s"

definition replace_slash_dot :: "string \<Rightarrow> string" where
  "replace_slash_dot s = map (\<lambda>c. if c = CHR ''/'' then CHR ''.'' else c) s"

fun split_on :: "char \<Rightarrow> string \<Rightarrow> string list" where
  "split_on sep [] = [[]]"
| "split_on sep (c # cs) =
     (if c = sep then [] # split_on sep cs
      else (case split_on sep cs of
              w # ws \<Rightarrow> (c # w) # ws
            | [] \<Rightarrow> [[c]]))"

fun join_with :: "string \<Rightarrow> string list \<Rightarrow> string" where
  "join_with sep [] = []"
| "join_with sep [x] = x"
| "join_with sep (x # y # ys) = x @ sep @ join_with sep (y # ys)"

text \<open>\<^verbatim>\<open>d[k] = v\<close>: an existing key keeps its position, a new key goes last.\<close>

fun dict_set :: "('k \<times> 'v) list \<Rightarrow> 'k \<Rightarrow> 'v \<Rightarrow> ('k \<times> 'v) list" where
  "dict_set [] k v = [(k, v)]"
| "dict_set ((k', v') # kvs) k v =
     (if k' = k then (k, v) # kvs else (k', v') # dict_set kvs k v)"

section \<open>The package and its write path\<close>

text \<open>
  Modelled from the spec: the value tables of the enums \<^verbatim>\<open>TargetType\<close> (const.py) and
  \<^verbatim>\<open>PackageFormat\<close> (core.py), whose members \<^verbatim>\<open>package.py\<close> names and whose
  values are not in \<^verbatim>\<open>package.py\<close>. \<^verbatim>\<open>'file'\<close> and \<^verbatim>\<open>'group'\<close> are the targets that
  \<^verbatim>\<open>save_file\<close> and \<^verbatim>\<open>save_group\<close> pass; a string that is no value of the enum is an
  "unrecognized format/target tag".
\<close>

datatype TargetType = PANDAS | FILE | GROUP

definition TargetType_of :: "string \<Rightarrow> TargetType option" where
  "TargetType_of s =
     (if s = ''pandas'' then Some PANDAS
      else if s = ''file'' then Some FILE
      else if s = ''group'' then Some GROUP
      else None)"

datatype PackageFormat = HDF5 | PARQUET

fun PackageFormat_value :: "PackageFormat \<Rightarrow> string" where
  "PackageFormat_value HDF5 = ''HDF5''"
| "PackageFormat_value PARQUET = ''PARQUET''"

definition PackageFormat_of :: "string \<Rightarrow> PackageFormat option" where
  "PackageFormat_of s =
     (if s = ''HDF5'' then Some HDF5
      else if s = ''PARQUET'' then Some PARQUET
      else None)"

text \<open>
  The contents of a snapshot file: \<open>Partial\<close> is a file that was opened for writing
  (truncated) and whose document is not written yet.
\<close>

datatype 'a fcontent = Partial | Complete 'a

datatype J = JNull | JStr string | JList "J list" | JObj "(string \<times> J) list"

text \<open>
  A \<^verbatim>\<open>Package\<close> object with the part of the file system it works on:
  \<open>contents\<close> is \<^verbatim>\<open>self._contents\<close>, \<open>store_files\<close> the paths that exist in the
  object store, \<open>snapshots\<close> the files of \<^verbatim>\<open>CONTENTS_DIR\<close> by name, \<open>tags_dir\<close>
  whether \<^verbatim>\<open>TAGS_DIR\<close> exists and \<open>latest_tag\<close> the text of the file
  \<^verbatim>\<open>TAGS_DIR/latest\<close> when it exists.
\<close>

record package =
  user :: string
  pkgname :: string
  contents :: node
  store_files :: "string set"
  snapshots :: "string \<rightharpoonup> J fcontent"
  tags_dir :: bool
  latest_tag :: "string option"

text \<open>
  \<^verbatim>\<open>_add_to_contents\<close>, lines 413-432: the node to insert, or the exception. An
  \<^verbatim>\<open>AssertionError\<close> is not a \<^verbatim>\<open>ValueError\<close> and passes the \<^verbatim>\<open>except\<close> clause.
\<close>

definition new_node :: "string \<Rightarrow> string list \<Rightarrow> PackageFormat option \<Rightarrow> metadata \<Rightarrow> exn + node" where
  "new_node target hashes fmt md =
     (case TargetType_of target of
        None \<Rightarrow> Inl (PackageException ''Unrecognized target {tgt}'' [target])
      | Some GROUP \<Rightarrow> Inr (GroupNode [])
      | Some PANDAS \<Rightarrow>
          (case fmt of
             None \<Rightarrow> Inl (AssertionError [])
           | Some f \<Rightarrow> Inr (TableNode hashes (PackageFormat_value f) md))
      | Some FILE \<Rightarrow> Inr (FileNode hashes md))"

text \<open>
  The pointer walk of \<^verbatim>\<open>_add_to_contents\<close> and \<^verbatim>\<open>save_package_tree\<close>:
  \<^verbatim>\<open>for node in ipath: ptr = ptr.children.setdefault(node, GroupNode(dict()))\<close>
  and then \<^verbatim>\<open>ptr.children[leaf] = node\<close>. The tree is returned as the walk leaves it,
  also when an exception is raised: groups that \<^verbatim>\<open>setdefault\<close> created stay.
  The last argument is the node to store, or the exception raised between the walk and
  the assignment.
\<close>

fun add_at :: "node \<Rightarrow> string list \<Rightarrow> string \<Rightarrow> exn + node \<Rightarrow> node \<times> exn option" where
  "add_at (GroupNode cs) [] leaf r =
     (case r of
        Inl e \<Rightarrow> (GroupNode cs, Some e)
      | Inr v \<Rightarrow> (GroupNode (dict_set cs leaf v), None))"
| "add_at (GroupNode cs) (k # ks) leaf r =
     (case map_of cs k of
        Some c \<Rightarrow>
          (case add_at c ks leaf r of (c', e) \<Rightarrow> (GroupNode (dict_set cs k c'), e))
      | None \<Rightarrow>
          (case add_at (GroupNode []) ks leaf r of (c', e) \<Rightarrow> (GroupNode (cs @ [(k, c')]), e)))"
| "add_at n [] leaf r =
     (case r of
        Inl e \<Rightarrow> (n, Some e)
      | Inr v \<Rightarrow> (n, Some AttributeError))"
| "add_at n (k # ks) leaf r = (n, Some AttributeError)"

definition add_to_contents ::
  "node \<Rightarrow> string \<Rightarrow> string list \<Rightarrow> string \<Rightarrow> pyval \<Rightarrow> string \<Rightarrow> PackageFormat option \<Rightarrow> node \<times> exn option" where
  "add_to_contents cont fullname hashes ext path target fmt =
     (let ipath = split_on CHR ''.'' fullname;
          leaf = last ipath;
          ipath' = butlast ipath;
          md = [(''q_ext'', PStr ext), (''q_path'', path), (''q_target'', PStr target)]
      in add_at cont ipath' leaf (new_node target hashes fmt md))"

text \<open>\<^verbatim>\<open>save_group\<close>. The hash list it passes is \<^verbatim>\<open>None\<close>, which the group branch of
  \<^verbatim>\<open>_add_to_contents\<close> never reads; the model passes the empty list.\<close>

definition save_group :: "package \<Rightarrow> string \<Rightarrow> package \<times> exn option" where
  "save_group st name =
     (let fullname = replace_slash_dot (lstrip_slash name) in
      if fullname \<noteq> [] then
        (case add_to_contents (contents st) fullname [] [] PNone ''group'' None of
           (c, e) \<Rightarrow> (st\<lparr>contents := c\<rparr>, e))
      else (st, None))"

text \<open>
  \<^verbatim>\<open>save_file\<close>. \<open>dg\<close> is \<^verbatim>\<open>digest_file\<close> (hashing.py) on the bytes of a file,
  \<open>obj_path\<close> is \<^verbatim>\<open>store.object_path\<close>, \<open>fs\<close> gives the bytes of the source files that
  can be read, and \<open>io_ok\<close> says whether \<^verbatim>\<open>copyfile\<close> and \<^verbatim>\<open>move\<close> succeed. The
  scratch file is not tracked.
\<close>

definition save_file ::
  "(string \<Rightarrow> string) \<Rightarrow> (string \<Rightarrow> string) \<Rightarrow> (string \<rightharpoonup> string) \<Rightarrow> bool \<Rightarrow>
   package \<Rightarrow> string \<Rightarrow> string \<Rightarrow> string \<Rightarrow> package \<times> exn option" where
  "save_file dg obj_path fs io_ok st srcfile name path =
     (case fs srcfile of
        None \<Rightarrow> (st, Some IOError)
      | Some bytes \<Rightarrow>
          (let filehash = dg bytes;
               fullname = replace_slash_dot (lstrip_slash name)
           in case add_to_contents (contents st) fullname [filehash] [] (PStr path) ''file'' None of
                (c, Some e) \<Rightarrow> (st\<lparr>contents := c\<rparr>, Some e)
              | (c, None) \<Rightarrow>
                  (let st1 = st\<lparr>contents := c\<rparr>;
                       objpath = obj_path filehash
                   in if objpath \<notin> store_files st1 then
                        (if io_ok then (st1\<lparr>store_files := insert objpath (store_files st1)\<rparr>, None)
                         else (st1, Some IOError))
                      else (st1, None))))"

text \<open>\<^verbatim>\<open>save_package_tree\<close>. \<^verbatim>\<open>pkgnode.children.copy()\<close> is a copy of the dict; the
  model has value semantics, so the children are not shared with \<open>pkgnode\<close>.\<close>

definition save_package_tree :: "package \<Rightarrow> string \<Rightarrow> node \<Rightarrow> package \<times> exn option" where
  "save_package_tree st name pkgnode =
     (if name \<noteq> [] then
        (let ipath = split_on CHR ''/'' name;
             leaf = last ipath;
             ipath' = butlast ipath
         in case add_at (contents st) ipath' leaf (Inr pkgnode) of
              (c, e) \<Rightarrow> (st\<lparr>contents := c\<rparr>, e))
      else
        (case contents st of
           GroupNode cs \<Rightarrow>
             (if cs \<noteq> [] then
                (st, Some (PackageException ''Attempting to overwrite root node of a non-empty package.'' []))
              else
                (case pkgnode of
                   GroupNode ds \<Rightarrow> (st\<lparr>contents := GroupNode ds\<rparr>, None)
                 | _ \<Rightarrow> (st, Some AttributeError)))
         | _ \<Rightarrow> (st, Some AttributeError)))"

section \<open>Path resolution\<close>

text \<open>
  \<^verbatim>\<open>pathlib.PurePosixPath(item)\<close>: the anchor is \<^verbatim>\<open>'/'\<close> for a leading slash,
  \<^verbatim>\<open>'//'\<close> for exactly two; the parts are the anchor, when there is one, and the
  segments between slashes that are neither empty nor \<^verbatim>\<open>'.'\<close>.
\<close>

definition path_anchor :: "string \<Rightarrow> string" where
  "path_anchor item =
     (let n = length (takeWhile (\<lambda>c. c = CHR ''/'') item) in
      if n = 0 then [] else if n = 2 then ''//'' else ''/'')"

definition path_parts :: "string \<Rightarrow> string list" where
  "path_parts item =
     (if path_anchor item \<noteq> [] then [path_anchor item] else []) @
     filter (\<lambda>x. x \<noteq> [] \<and> x \<noteq> ''.'') (split_on CHR ''/'' (lstrip_slash item))"

text \<open>
  The loop and the two \<^verbatim>\<open>except\<close> clauses of \<^verbatim>\<open>__getitem__\<close>. \<open>seen\<close> is
  \<^verbatim>\<open>path.parts[:count]\<close>. \<open>is_nodename\<close> (util.py) is not in \<^verbatim>\<open>package.py\<close> and is
  a parameter. \<^verbatim>\<open>node.children[part]\<close> raises \<^verbatim>\<open>KeyError\<close> in a group without that
  child and \<^verbatim>\<open>AttributeError\<close> on a table or file node; the \<^verbatim>\<open>TypeError\<close> for an
  invalid name is raised inside the \<^verbatim>\<open>try\<close> and caught by neither clause.
\<close>

fun getitem_walk :: "(string \<Rightarrow> bool) \<Rightarrow> string list \<Rightarrow> node \<Rightarrow> string list \<Rightarrow> exn + node" where
  "getitem_walk is_nodename seen n [] = Inr n"
| "getitem_walk is_nodename seen n (part # rest) =
     (if \<not> is_nodename part then Inl (TypeError ''Invalid node name: {!r}'' [part])
      else
        (case n of
           GroupNode cs \<Rightarrow>
             (case map_of cs part of
                None \<Rightarrow> Inl (KeyError (join_with ''/'' seen) part)
              | Some c \<Rightarrow> getitem_walk is_nodename (seen @ [part]) c rest)
         | _ \<Rightarrow> Inl (TypeError ''Not a GroupNode: Node at {!r}'' [join_with ''/'' seen])))"

definition getitem :: "(string \<Rightarrow> bool) \<Rightarrow> package \<Rightarrow> string \<Rightarrow> exn + node" where
  "getitem is_nodename st item =
     (if item = [] then
        Inl (TypeError ''Invalid node reference: Blank node names not permitted.'' [])
      else if path_anchor item \<noteq> [] then
        Inl (TypeError ''Invalid node reference: Absolute path.  Remove prefix {!r}'' [path_anchor item])
      else getitem_walk is_nodename [] (contents st) (path_parts item))"

text \<open>The child of a node under a name: \<^verbatim>\<open>node.children.get(name)\<close> for a group,
  nothing for a node without children.\<close>

fun child :: "node \<Rightarrow> string \<Rightarrow> node option" where
  "child (GroupNode cs) k = map_of cs k"
| "child n k = None"

fun is_group :: "node \<Rightarrow> bool" where
  "is_group (GroupNode cs) = True"
| "is_group n = False"

text \<open>A path segment as \<^verbatim>\<open>__getitem__\<close> walks it: not empty, not \<^verbatim>\<open>'.'\<close>, without a
  slash.\<close>

definition plain_segment :: "string \<Rightarrow> bool" where
  "plain_segment s = (s \<noteq> [] \<and> s \<noteq> ''.'' \<and> CHR ''/'' \<notin> set s)"

text \<open>
  Where the walk \<^verbatim>\<open>for node in ipath: ptr = ptr.children.setdefault(node, ...)\<close> of
  \<^verbatim>\<open>_add_to_contents\<close> ends: the node \<open>ptr\<close> refers to after the loop, or \<open>None\<close> when
  the loop meets a table or file node with path left and raises \<^verbatim>\<open>AttributeError\<close>.
\<close>

fun walk_end :: "node \<Rightarrow> string list \<Rightarrow> node option" where
  "walk_end n [] = Some n"
| "walk_end (GroupNode cs) (k # ks) =
     (case map_of cs k of
        None \<Rightarrow> walk_end (GroupNode []) ks
      | Some c \<Rightarrow> walk_end c ks)"
| "walk_end n (k # ks) = None"

text \<open>The node at a path of child names.\<close>

fun node_at :: "node \<Rightarrow> string list \<Rightarrow> node option" where
  "node_at n [] = Some n"
| "node_at n (k # ks) = (case child n k of None \<Rightarrow> None | Some c \<Rightarrow> node_at c ks)"

text \<open>A logical name without its leading slashes, cut at every slash and, within each
  piece, at every dot.\<close>

definition name_segments :: "string \<Rightarrow> string list" where
  "name_segments name =
     concat (map (split_on CHR ''.'') (split_on CHR ''/'' (lstrip_slash name)))"

text \<open>Every child name that occurs in a tree, at any depth.\<close>

fun keys_of :: "node \<Rightarrow> string set" where
  "keys_of (GroupNode cs) = (\<Union>kc \<in> set cs. insert (fst kc) (keys_of (snd kc)))"
| "keys_of (TableNode hs f md) = {}"
| "keys_of (FileNode hs md) = {}"

section \<open>Serialization and the snapshot hash\<close>

text \<open>
  \<^verbatim>\<open>encode_node\<close>, \<^verbatim>\<open>decode_node\<close> and \<^verbatim>\<open>hash_contents\<close> are functions of core.py;
  \<^verbatim>\<open>package.py\<close> imports them and hands the first two to \<^verbatim>\<open>json.dump\<close> (with
  \<^verbatim>\<open>sort_keys=True\<close>) and \<^verbatim>\<open>json.load\<close>. A snapshot file is modelled by the JSON
  document it holds (a value of type \<open>J\<close>, an object being the list of its members in
  the order of the text), not by its characters.
\<close>

text \<open>\<^verbatim>\<open>sort_keys=True\<close>: the members of every object are written in the order of
  their keys. Python compares strings by code point: the lexicographic order of
  character lists.\<close>

definition sort_keys :: "(string \<times> 'v) list \<Rightarrow> (string \<times> 'v) list" where
  "sort_keys kvs = sort_key fst kvs"

fun dump_value :: "pyval \<Rightarrow> J" where
  "dump_value PNone = JNull"
| "dump_value (PStr s) = JStr s"

definition dump_metadata :: "metadata \<Rightarrow> J" where
  "dump_metadata md = JObj (sort_keys (map (\<lambda>kv. (fst kv, dump_value (snd kv))) md))"

text \<open>
  Modelled from the spec: \<^verbatim>\<open>json.dump(contents, default=encode_node, sort_keys=True)\<close>
  with the absent \<^verbatim>\<open>encode_node\<close>. "Each node carries an explicit type discriminator
  plus its variant-specific fields (children map / hash list+format+metadata / hash
  list+metadata). Field ordering must be canonical"; "group children are ordered by
  sorted key".
\<close>

fun dump :: "node \<Rightarrow> J" where
  "dump (GroupNode cs) =
     JObj (sort_keys [(''type'', JStr ''GROUP''),
                      (''children'', JObj (sort_keys (map (\<lambda>kc. (fst kc, dump (snd kc))) cs)))])"
| "dump (TableNode hs f md) =
     JObj (sort_keys [(''type'', JStr ''TABLE''),
                      (''hashes'', JList (map JStr hs)),
                      (''format'', JStr f),
                      (''metadata'', dump_metadata md)])"
| "dump (FileNode hs md) =
     JObj (sort_keys [(''type'', JStr ''FILE''),
                      (''hashes'', JList (map JStr hs)),
                      (''metadata'', dump_metadata md)])"

text \<open>
  The values \<^verbatim>\<open>json.load\<close> builds: \<^verbatim>\<open>None\<close>, strings, lists, dicts, and the nodes
  that the object hook puts in the place of dicts.
\<close>

datatype pyobj =
    ONone
  | OStr string
  | OList "pyobj list"
  | ODict "(string \<times> pyobj) list"
  | ONode node

text \<open>The results of decoding the elements of an array or the members of an object, in
  the order of the text: the first exception ends the load.\<close>

fun collect :: "(exn + 'a) list \<Rightarrow> exn + 'a list" where
  "collect [] = Inr []"
| "collect (Inl e # rs) = Inl e"
| "collect (Inr v # rs) = (case collect rs of Inl e \<Rightarrow> Inl e | Inr vs \<Rightarrow> Inr (v # vs))"

fun collect_members :: "(string \<times> (exn + 'a)) list \<Rightarrow> exn + (string \<times> 'a) list" where
  "collect_members [] = Inr []"
| "collect_members ((k, Inl e) # rs) = Inl e"
| "collect_members ((k, Inr v) # rs) =
     (case collect_members rs of Inl e \<Rightarrow> Inl e | Inr kvs \<Rightarrow> Inr ((k, v) # kvs))"

text \<open>\<^verbatim>\<open>dict(pairs)\<close>: a key that comes again replaces the value and keeps its place.\<close>

definition dict_of :: "(string \<times> 'v) list \<Rightarrow> (string \<times> 'v) list" where
  "dict_of pairs = foldl (\<lambda>d kv. dict_set d (fst kv) (snd kv)) [] pairs"

text \<open>
  \<^verbatim>\<open>json.load(file, object_hook=hook)\<close> on the document of a file: every JSON object,
  innermost first, is made a dict of its decoded members and handed to the hook, and what
  the hook returns stands in its place. The hook is given the dict alone: it is not told
  whether the object was a node, the children of a group or the metadata of a leaf.
\<close>

fun json_load :: "((string \<times> pyobj) list \<Rightarrow> exn + pyobj) \<Rightarrow> J \<Rightarrow> exn + pyobj" where
  "json_load object_hook JNull = Inr ONone"
| "json_load object_hook (JStr s) = Inr (OStr s)"
| "json_load object_hook (JList js) =
     (case collect (map (json_load object_hook) js) of
        Inl e \<Rightarrow> Inl e
      | Inr vs \<Rightarrow> Inr (OList vs))"
| "json_load object_hook (JObj kvs) =
     (case collect_members (map (\<lambda>kj. (fst kj, json_load object_hook (snd kj))) kvs) of
        Inl e \<Rightarrow> Inl e
      | Inr pairs \<Rightarrow> object_hook (dict_of pairs))"

fun as_node :: "pyobj \<Rightarrow> node option" where
  "as_node (ONode n) = Some n"
| "as_node v = None"

fun as_str :: "pyobj \<Rightarrow> string option" where
  "as_str (OStr s) = Some s"
| "as_str v = None"

fun as_value :: "pyobj \<Rightarrow> pyval option" where
  "as_value ONone = Some PNone"
| "as_value (OStr s) = Some (PStr s)"
| "as_value v = None"

fun as_children :: "pyobj \<Rightarrow> (string \<times> node) list option" where
  "as_children (ODict kvs) =
     those (map (\<lambda>kv. map_option (Pair (fst kv)) (as_node (snd kv))) kvs)"
| "as_children v = None"

fun as_metadata :: "pyobj \<Rightarrow> metadata option" where
  "as_metadata (ODict kvs) =
     those (map (\<lambda>kv. map_option (Pair (fst kv)) (as_value (snd kv))) kvs)"
| "as_metadata v = None"

fun as_hashes :: "pyobj \<Rightarrow> string list option" where
  "as_hashes (OList vs) = those (map as_str vs)"
| "as_hashes v = None"

text \<open>
  Modelled from the spec: the node classes of core.py called with the members of a dict
  as keyword arguments, "children map / hash list+format+metadata / hash list+metadata".
  Members that are not the fields of the variant, or whose values the data model of this
  theory cannot hold, raise \<^verbatim>\<open>TypeError\<close>; a type tag that names no variant raises
  \<^verbatim>\<open>ValueError\<close>.
\<close>

definition make_node :: "string \<Rightarrow> (string \<times> pyobj) list \<Rightarrow> exn + pyobj" where
  "make_node t kwargs =
     (if t = ''GROUP'' then
        (case (length kwargs, Option.bind (map_of kwargs ''children'') as_children) of
           (Suc 0, Some cs) \<Rightarrow> Inr (ONode (GroupNode cs))
         | _ \<Rightarrow> Inl (TypeError [] []))
      else if t = ''TABLE'' then
        (case (length kwargs,
               Option.bind (map_of kwargs ''hashes'') as_hashes,
               Option.bind (map_of kwargs ''format'') as_str,
               Option.bind (map_of kwargs ''metadata'') as_metadata) of
           (Suc (Suc (Suc 0)), Some hs, Some f, Some md) \<Rightarrow> Inr (ONode (TableNode hs f md))
         | _ \<Rightarrow> Inl (TypeError [] []))
      else if t = ''FILE'' then
        (case (length kwargs,
               Option.bind (map_of kwargs ''hashes'') as_hashes,
               Option.bind (map_of kwargs ''metadata'') as_metadata) of
           (Suc (Suc 0), Some hs, Some md) \<Rightarrow> Inr (ONode (FileNode hs md))
         | _ \<Rightarrow> Inl (TypeError [] []))
      else Inl (ValueError []))"

text \<open>
  Modelled from the spec: \<^verbatim>\<open>decode_node\<close> (core.py), the object hook of
  \<^verbatim>\<open>_load_contents\<close>. "Each node carries an explicit type discriminator plus its
  variant-specific fields" and "the discriminator is part of the wire format, decoded
  into the matching variant": a dict without a \<^verbatim>\<open>type\<close> member is returned as it is, a
  dict whose \<^verbatim>\<open>type\<close> member is a type tag becomes the node of that variant, built from
  the other members. The hook sees the children dict of a group after the children have
  become nodes; a \<^verbatim>\<open>type\<close> member that is a node and not a string is no type tag and
  raises \<^verbatim>\<open>TypeError\<close>.
\<close>

definition decode_node :: "(string \<times> pyobj) list \<Rightarrow> exn + pyobj" where
  "decode_node val =
     (case map_of val ''type'' of
        None \<Rightarrow> Inr (ODict val)
      | Some (OStr t) \<Rightarrow> make_node t (filter (\<lambda>kv. fst kv \<noteq> ''type'') val)
      | Some v \<Rightarrow> Inl (TypeError [] []))"

text \<open>
  Modelled from the spec: \<^verbatim>\<open>hash_contents\<close> (core.py), "digest over a canonical byte
  serialization of the tree where group children are ordered by sorted key and node fields
  appear in a fixed field order"; a snapshot's "storage key is hash(serialize(contents))".
  \<open>digest\<close> is the digest of the bytes of a document, a parameter.
\<close>

definition hash_contents :: "(J \<Rightarrow> string) \<Rightarrow> node \<Rightarrow> string" where
  "hash_contents digest n = digest (dump n)"

definition get_hash :: "(J \<Rightarrow> string) \<Rightarrow> package \<Rightarrow> string" where
  "get_hash digest st = hash_contents digest (contents st)"

text \<open>A digest for the examples: one hash for the document of the empty root, another
  for every other document.\<close>

definition example_digest :: "J \<Rightarrow> string" where
  "example_digest d = (if d = dump (GroupNode []) then ''h1'' else ''h2'')"

text \<open>
  Equality of nodes as Python's \<^verbatim>\<open>==\<close> sees it: two dicts are equal when they have the
  same keys with equal values, whatever their insertion order; hash lists are compared as
  lists.
\<close>

fun node_eq :: "node \<Rightarrow> node \<Rightarrow> bool" where
  "node_eq (GroupNode cs) (GroupNode ds) =
     (length cs = length ds \<and>
      list_all (\<lambda>kc. case map_of ds (fst kc) of
                        None \<Rightarrow> False
                      | Some d \<Rightarrow> node_eq (snd kc) d) cs)"
| "node_eq (TableNode hs f md) (TableNode hs' f' md') =
     (hs = hs' \<and> f = f' \<and> length md = length md' \<and>
      list_all (\<lambda>kv. map_of md' (fst kv) = Some (snd kv)) md)"
| "node_eq (FileNode hs md) (FileNode hs' md') =
     (hs = hs' \<and> length md = length md' \<and>
      list_all (\<lambda>kv. map_of md' (fst kv) = Some (snd kv)) md)"
| "node_eq n m = False"

text \<open>The invariant of a Python dict, in every group and every metadata dict of a tree:
  no key occurs twice.\<close>

fun valid_tree :: "node \<Rightarrow> bool" where
  "valid_tree (GroupNode cs) =
     (distinct (map fst cs) \<and> list_all (\<lambda>kc. valid_tree (snd kc)) cs)"
| "valid_tree (TableNode hs f md) = distinct (map fst md)"
| "valid_tree (FileNode hs md) = distinct (map fst md)"

text \<open>The tree with every dict in the order of its keys: what a document that \<open>dump\<close>
  wrote is loaded as, when it loads.\<close>

fun canon :: "node \<Rightarrow> node" where
  "canon (GroupNode cs) = GroupNode (sort_keys (map (\<lambda>kc. (fst kc, canon (snd kc))) cs))"
| "canon (TableNode hs f md) = TableNode hs f (sort_keys md)"
| "canon (FileNode hs md) = FileNode hs (sort_keys md)"

text \<open>A tree in which no child of a group and no metadata key is called \<^verbatim>\<open>type\<close>.\<close>

fun no_type_key :: "node \<Rightarrow> bool" where
  "no_type_key (GroupNode cs) =
     list_all (\<lambda>kc. fst kc \<noteq> ''type'' \<and> no_type_key (snd kc)) cs"
| "no_type_key (TableNode hs f md) = list_all (\<lambda>kv. fst kv \<noteq> ''type'') md"
| "no_type_key (FileNode hs md) = list_all (\<lambda>kv. fst kv \<noteq> ''type'') md"

text \<open>A metadata value as \<^verbatim>\<open>json.load\<close> returns it.\<close>

fun obj_of_value :: "pyval \<Rightarrow> pyobj" where
  "obj_of_value PNone = ONone"
| "obj_of_value (PStr s) = OStr s"

section \<open>Snapshots and tags\<close>

text \<open>
  The file operations of \<^verbatim>\<open>save_contents\<close>, one step each. \<^verbatim>\<open>open(path, 'w')\<close>
  creates or truncates the file; the \<^verbatim>\<open>with\<close> block then writes it and closes it.
\<close>

datatype fs_step =
    OpenSnapshot string
  | WriteSnapshot string J
  | EnsureTagsDir
  | OpenTag
  | WriteTag string

fun fs_apply :: "fs_step \<Rightarrow> package \<Rightarrow> package" where
  "fs_apply (OpenSnapshot h) st = st\<lparr>snapshots := (snapshots st)(h \<mapsto> Partial)\<rparr>"
| "fs_apply (WriteSnapshot h d) st = st\<lparr>snapshots := (snapshots st)(h \<mapsto> Complete d)\<rparr>"
| "fs_apply EnsureTagsDir st = st\<lparr>tags_dir := True\<rparr>"
| "fs_apply OpenTag st = st\<lparr>latest_tag := Some []\<rparr>"
| "fs_apply (WriteTag h) st = st\<lparr>latest_tag := Some h\<rparr>"

definition run_steps :: "fs_step list \<Rightarrow> package \<Rightarrow> package" where
  "run_steps steps st = fold fs_apply steps st"

definition save_contents_steps :: "(J \<Rightarrow> string) \<Rightarrow> package \<Rightarrow> fs_step list" where
  "save_contents_steps digest st =
     (let instance_hash = get_hash digest st in
      [OpenSnapshot instance_hash,
       WriteSnapshot instance_hash (dump (contents st)),
       EnsureTagsDir,
       OpenTag,
       WriteTag instance_hash])"

definition save_contents :: "(J \<Rightarrow> string) \<Rightarrow> package \<Rightarrow> package" where
  "save_contents digest st = run_steps (save_contents_steps digest st) st"

text \<open>\<^verbatim>\<open>save_contents\<close> interrupted after its first \<open>k\<close> file operations.\<close>

definition save_contents_interrupted :: "(J \<Rightarrow> string) \<Rightarrow> nat \<Rightarrow> package \<Rightarrow> package" where
  "save_contents_interrupted digest k st = run_steps (take k (save_contents_steps digest st)) st"

text \<open>
  \<^verbatim>\<open>_load_contents\<close>. Snapshot files are looked up by name in \<^verbatim>\<open>CONTENTS_DIR\<close>.
  The result is what \<^verbatim>\<open>json.load\<close> returns with \<^verbatim>\<open>decode_node\<close> as its object hook;
  on a file that holds no complete document \<^verbatim>\<open>json.load\<close> raises \<^verbatim>\<open>ValueError\<close>.
\<close>

definition load_contents :: "package \<Rightarrow> string option \<Rightarrow> exn + pyobj" where
  "load_contents st instance_hash =
     (case (case instance_hash of
              None \<Rightarrow>
                (case latest_tag st of
                   None \<Rightarrow> Inl (PackageException ''Could not find latest tag for package {0}/{1}''
                                  [user st, pkgname st])
                 | Some t \<Rightarrow> Inr t)
            | Some h \<Rightarrow> Inr h) of
        Inl e \<Rightarrow> Inl e
      | Inr h \<Rightarrow>
          (case snapshots st h of
             None \<Rightarrow> Inl (PackageException ''Invalid hash for package {owner}/{pkg}: {hash}''
                            [h, user st, pkgname st])
           | Some Partial \<Rightarrow> Inl (ValueError [])
           | Some (Complete d) \<Rightarrow> json_load decode_node d))"

section \<open>The read path\<close>

datatype ParquetLib = SPARK | ARROW

text \<open>
  The readers of tabular data are pandas, pyarrow and pyspark: \<open>hdf_get\<close> reads the
  frame of an HDF5 store at a path, \<open>arrow_read\<close> and \<open>spark_read\<close> read a Parquet
  dataset from a list of paths. \<open>parquet_lib\<close> is what \<^verbatim>\<open>get_parquet_lib()\<close> returns.
\<close>

record 'df readers =
  parquet_lib :: ParquetLib
  hdf_get :: "string \<Rightarrow> exn + 'df"
  arrow_read :: "string list \<Rightarrow> exn + 'df"
  spark_read :: "string list \<Rightarrow> exn + 'df"

datatype 'df obj = Frame 'df | ObjPath string

text \<open>\<^verbatim>\<open>_check_hashes\<close>: the exception it raises, if any.\<close>

definition check_hashes :: "(string \<Rightarrow> string) \<Rightarrow> package \<Rightarrow> string list \<Rightarrow> exn option" where
  "check_hashes obj_path st hash_list =
     (if list_all (\<lambda>objhash. obj_path objhash \<in> store_files st) hash_list then None
      else Some (PackageException ''Missing object fragments; re-install the package'' []))"

definition file_of :: "(string \<Rightarrow> string) \<Rightarrow> string list \<Rightarrow> exn + 'df obj" where
  "file_of obj_path hash_list =
     (case hash_list of
        [filehash] \<Rightarrow> Inr (ObjPath (obj_path filehash))
      | _ \<Rightarrow> Inl (AssertionError ''File objects must be contained in one file.''))"

definition read_hdf5 :: "'df readers \<Rightarrow> (string \<Rightarrow> string) \<Rightarrow> string list \<Rightarrow> exn + 'df" where
  "read_hdf5 R obj_path hash_list =
     (case hash_list of
        [filehash] \<Rightarrow> hdf_get R (obj_path filehash)
      | _ \<Rightarrow> Inl (AssertionError ''Multi-file DFs not supported in HDF5.''))"

text \<open>\<^verbatim>\<open>_dataframe\<close>. \<^verbatim>\<open>PackageFormat(pkgformat)\<close> raises \<^verbatim>\<open>ValueError\<close> for a string that
  is no format; a \<^verbatim>\<open>ValueError\<close> of the pyarrow reader becomes a \<^verbatim>\<open>PackageException\<close>
  with the same text.\<close>

definition dataframe :: "'df readers \<Rightarrow> (string \<Rightarrow> string) \<Rightarrow> string list \<Rightarrow> string \<Rightarrow> exn + 'df" where
  "dataframe R obj_path hash_list pkgformat =
     (case PackageFormat_of pkgformat of
        None \<Rightarrow> Inl (ValueError [])
      | Some HDF5 \<Rightarrow> read_hdf5 R obj_path hash_list
      | Some PARQUET \<Rightarrow>
          (case parquet_lib R of
             SPARK \<Rightarrow> spark_read R (map obj_path hash_list)
           | ARROW \<Rightarrow>
               (case arrow_read R (map obj_path hash_list) of
                  Inl (ValueError err) \<Rightarrow> Inl (PackageException ''{0}'' [err])
                | r \<Rightarrow> r)))"

text \<open>
  Modelled from the spec: \<^verbatim>\<open>find_object_hashes(node, sort=True)\<close> (core.py), "collect
  all hashes from every descendant TableNode, in deterministic sorted order".
\<close>

fun table_hashes :: "node \<Rightarrow> string list" where
  "table_hashes (GroupNode cs) = concat (map (\<lambda>kc. table_hashes (snd kc)) cs)"
| "table_hashes (TableNode hs f md) = hs"
| "table_hashes (FileNode hs md) = []"

definition find_object_hashes :: "node \<Rightarrow> string list" where
  "find_object_hashes n = sort (table_hashes n)"

definition get_obj :: "'df readers \<Rightarrow> (string \<Rightarrow> string) \<Rightarrow> package \<Rightarrow> node \<Rightarrow> exn + 'df obj" where
  "get_obj R obj_path st n =
     (case n of
        TableNode hashes fmt md \<Rightarrow>
          (case check_hashes obj_path st hashes of
             Some e \<Rightarrow> Inl e
           | None \<Rightarrow> map_sum id Frame (dataframe R obj_path hashes fmt))
      | GroupNode cs \<Rightarrow>
          (let hash_list = find_object_hashes n in
           case check_hashes obj_path st hash_list of
             Some e \<Rightarrow> Inl e
           | None \<Rightarrow> map_sum id Frame (dataframe R obj_path hash_list (PackageFormat_value PARQUET)))
      | FileNode hashes md \<Rightarrow>
          (case check_hashes obj_path st hashes of
             Some e \<Rightarrow> Inl e
           | None \<Rightarrow> file_of obj_path hashes))"

text \<open>The class of the exception a call raised, if it raised one.\<close>

definition raised_class :: "exn + 'a \<Rightarrow> string option" where
  "raised_class r = (case r of Inl e \<Rightarrow> Some (exn_class e) | Inr v \<Rightarrow> None)"

text \<open>The package that \<^verbatim>\<open>Package.__init__\<close> sets up in a new directory around an
  empty root group: the three directories exist and nothing is stored or tagged.\<close>

definition fresh_package :: "string \<Rightarrow> string \<Rightarrow> package" where
  "fresh_package u p =
     \<lparr>user = u, pkgname = p, contents = GroupNode [], store_files = {},
      snapshots = Map.empty, tags_dir = True, latest_tag = None\<rparr>"

section \<open>Properties of the write path\<close>

lemma lstrip_slash_only_slashes: "set name \<subseteq> {CHR ''/''} \<Longrightarrow> lstrip_slash name = []"
  by (induction name) (auto simp: lstrip_slash_def)

text \<open>
  C10. For every name that is empty or consists only of \<^verbatim>\<open>/\<close> characters,
  \<^verbatim>\<open>save_group\<close> raises nothing and leaves the package (its contents, the object store
  and the rest of its state) as it was.
\<close>

theorem save_group_blank_noop:
  "set name \<subseteq> {CHR ''/''} \<Longrightarrow> save_group st name = (st, None)"
  by (simp add: save_group_def lstrip_slash_only_slashes replace_slash_dot_def)

theorem save_group_blank_noop_witness:
  "set ''//'' \<subseteq> {CHR ''/''} \<and>
   save_group (fresh_package ''u'' ''p'') ''//'' = (fresh_package ''u'' ''p'', None)"
  using save_group_blank_noop [of "''//''" "fresh_package ''u'' ''p''"] by simp


section \<open>Grafting at the root\<close>

text \<open>
  C6. \<^verbatim>\<open>save_package_tree\<close> with the empty name: when the root has no children they
  become the children of the grafted group; when the root has children the call raises
  the \<^verbatim>\<open>PackageException\<close> for a non-empty root and the package is as it was,
  whatever node was to be grafted.
\<close>

theorem save_package_tree_root_guard:
  "contents st = GroupNode cs \<Longrightarrow>
     (cs = [] \<longrightarrow>
        save_package_tree st [] (GroupNode ds) = (st\<lparr>contents := GroupNode ds\<rparr>, None)) \<and>
     (cs \<noteq> [] \<longrightarrow>
        save_package_tree st [] pkgnode =
          (st, Some (PackageException ''Attempting to overwrite root node of a non-empty package.'' [])))"
  by (simp add: save_package_tree_def)

theorem save_package_tree_root_guard_witness:
  "save_package_tree (fresh_package ''u'' ''p'') [] (GroupNode [(''x'', GroupNode [])]) =
     ((fresh_package ''u'' ''p'')\<lparr>contents := GroupNode [(''x'', GroupNode [])]\<rparr>, None) \<and>
   save_package_tree ((fresh_package ''u'' ''p'')\<lparr>contents := GroupNode [(''y'', GroupNode [])]\<rparr>) []
       (GroupNode [(''x'', GroupNode [])]) =
     ((fresh_package ''u'' ''p'')\<lparr>contents := GroupNode [(''y'', GroupNode [])]\<rparr>,
      Some (PackageException ''Attempting to overwrite root node of a non-empty package.'' []))"
  using save_package_tree_root_guard [of "fresh_package ''u'' ''p''" "[]" "[(''x'', GroupNode [])]"]
    save_package_tree_root_guard [of "(fresh_package ''u'' ''p'')\<lparr>contents := GroupNode [(''y'', GroupNode [])]\<rparr>"
      "[(''y'', GroupNode [])]" _ "GroupNode [(''x'', GroupNode [])]"]
  by (simp add: fresh_package_def)

section \<open>Path resolution\<close>

lemma split_on_no_sep: "sep \<notin> set s \<Longrightarrow> split_on sep s = [s]"
  by (induction s) auto

lemma split_on_append: "sep \<notin> set a \<Longrightarrow> split_on sep (a @ sep # r) = a # split_on sep r"
  by (induction a) auto

lemma split_on_nonempty: "split_on sep s \<noteq> []"
  by (induction s) (auto split: list.splits)

lemma split_on_parts_free: "p \<in> set (split_on sep s) \<Longrightarrow> sep \<notin> set p"
  by (induction s arbitrary: p) (auto split: if_splits list.splits)

lemma path_anchor_plain: "plain_segment a \<Longrightarrow> path_anchor (a @ r) = []"
  by (cases a) (auto simp: path_anchor_def plain_segment_def)

lemma lstrip_plain: "plain_segment a \<Longrightarrow> lstrip_slash (a @ r) = a @ r"
  by (cases a) (auto simp: lstrip_slash_def plain_segment_def)

lemma path_parts_abc:
  assumes "plain_segment a" "plain_segment b" "plain_segment c"
  shows "path_parts (a @ ''/'' @ b @ ''/'' @ c) = [a, b, c]"
  using assms
  by (simp add: path_parts_def path_anchor_plain lstrip_plain split_on_append
      split_on_no_sep plain_segment_def)

lemma child_Some_group: "child n k = Some c \<Longrightarrow> \<exists>cs. n = GroupNode cs \<and> map_of cs k = Some c"
  by (cases n) auto

text \<open>
  C3. Resolving \<^verbatim>\<open>a/b/c\<close>, for segments \<open>a\<close>, \<open>b\<close>, \<open>c\<close> that are node names, in a
  tree where \<open>a\<close> has the child \<open>nb\<close> under \<open>b\<close>: when \<open>nb\<close> has a child under \<open>c\<close>
  that child is returned; when \<open>nb\<close> is not a group the \<^verbatim>\<open>TypeError\<close>
  "Not a GroupNode" reports the prefix \<^verbatim>\<open>a/b\<close>; when \<open>nb\<close> is a group without \<open>c\<close>
  the \<^verbatim>\<open>KeyError\<close> carries the prefix \<^verbatim>\<open>a/b\<close> and the segment \<open>c\<close>.
\<close>

theorem getitem_three_segments:
  assumes "plain_segment a" "plain_segment b" "plain_segment c"
    and "is_nodename a" "is_nodename b" "is_nodename c"
    and "child (contents st) a = Some na" "child na b = Some nb"
  shows
    "(child nb c = Some n \<longrightarrow>
        getitem is_nodename st (a @ ''/'' @ b @ ''/'' @ c) = Inr n) \<and>
     (\<not> is_group nb \<longrightarrow>
        getitem is_nodename st (a @ ''/'' @ b @ ''/'' @ c) =
          Inl (TypeError ''Not a GroupNode: Node at {!r}'' [a @ ''/'' @ b])) \<and>
     (is_group nb \<and> child nb c = None \<longrightarrow>
        getitem is_nodename st (a @ ''/'' @ b @ ''/'' @ c) = Inl (KeyError (a @ ''/'' @ b) c))"
proof -
  obtain cs where root: "contents st = GroupNode cs" "map_of cs a = Some na"
    using assms(7) child_Some_group by blast
  obtain ca where na: "na = GroupNode ca" "map_of ca b = Some nb"
    using assms(8) child_Some_group by blast
  have item: "a @ ''/'' @ b @ ''/'' @ c \<noteq> []"
    using assms(1) by (simp add: plain_segment_def)
  have parts: "path_parts (a @ ''/'' @ b @ ''/'' @ c) = [a, b, c]"
    by (rule path_parts_abc) fact+
  have anchor: "path_anchor (a @ ''/'' @ b @ ''/'' @ c) = []"
    by (rule path_anchor_plain) fact
  have "getitem is_nodename st (a @ ''/'' @ b @ ''/'' @ c) =
      getitem_walk is_nodename [] (contents st) [a, b, c]"
    unfolding getitem_def parts anchor using item by simp
  also have "\<dots> = getitem_walk is_nodename [a, b] nb [c]"
    using assms(4,5) root na by simp
  finally have walk: "getitem is_nodename st (a @ ''/'' @ b @ ''/'' @ c) =
      getitem_walk is_nodename [a, b] nb [c]" .
  show ?thesis
    unfolding walk using assms(6)
    by (cases nb) auto
qed

theorem getitem_three_segments_witness:
  "getitem (\<lambda>s. s \<noteq> [])
     ((fresh_package ''u'' ''p'')\<lparr>contents :=
        GroupNode [(''a'', GroupNode [(''b'', GroupNode [(''c'', FileNode [''h1''] [])]),
                                      (''f'', FileNode [''h2''] [])])]\<rparr>) ''a/b/c''
     = Inr (FileNode [''h1''] []) \<and>
   getitem (\<lambda>s. s \<noteq> [])
     ((fresh_package ''u'' ''p'')\<lparr>contents :=
        GroupNode [(''a'', GroupNode [(''b'', GroupNode [(''c'', FileNode [''h1''] [])]),
                                      (''f'', FileNode [''h2''] [])])]\<rparr>) ''a/f/c''
     = Inl (TypeError ''Not a GroupNode: Node at {!r}'' [''a/f'']) \<and>
   getitem (\<lambda>s. s \<noteq> [])
     ((fresh_package ''u'' ''p'')\<lparr>contents :=
        GroupNode [(''a'', GroupNode [(''b'', GroupNode [(''c'', FileNode [''h1''] [])]),
                                      (''f'', FileNode [''h2''] [])])]\<rparr>) ''a/b/d''
     = Inl (KeyError ''a/b'' ''d'')"
proof -
  let ?st = "(fresh_package ''u'' ''p'')\<lparr>contents :=
        GroupNode [(''a'', GroupNode [(''b'', GroupNode [(''c'', FileNode [''h1''] [])]),
                                      (''f'', FileNode [''h2''] [])])]\<rparr>"
  let ?na = "GroupNode [(''b'', GroupNode [(''c'', FileNode [''h1''] [])]), (''f'', FileNode [''h2''] [])]"
  have seg: "plain_segment ''a''" "plain_segment ''b''" "plain_segment ''c''"
    "plain_segment ''d''" "plain_segment ''f''"
    by (simp_all add: plain_segment_def)
  have na: "child (contents ?st) ''a'' = Some ?na" by simp
  have 1: "getitem (\<lambda>s. s \<noteq> []) ?st (''a'' @ ''/'' @ ''b'' @ ''/'' @ ''c'') = Inr (FileNode [''h1''] [])"
    using getitem_three_segments [of "''a''" "''b''" "''c''" "\<lambda>s. s \<noteq> []" ?st ?na
        "GroupNode [(''c'', FileNode [''h1''] [])]" "FileNode [''h1''] []"] seg na
    by simp
  have 2: "getitem (\<lambda>s. s \<noteq> []) ?st (''a'' @ ''/'' @ ''f'' @ ''/'' @ ''c'') =
      Inl (TypeError ''Not a GroupNode: Node at {!r}'' [''a'' @ ''/'' @ ''f''])"
    using getitem_three_segments [of "''a''" "''f''" "''c''" "\<lambda>s. s \<noteq> []" ?st ?na
        "FileNode [''h2''] []"] seg na
    by simp
  have 3: "getitem (\<lambda>s. s \<noteq> []) ?st (''a'' @ ''/'' @ ''b'' @ ''/'' @ ''d'') = Inl (KeyError (''a'' @ ''/'' @ ''b'') ''d'')"
    using getitem_three_segments [of "''a''" "''b''" "''d''" "\<lambda>s. s \<noteq> []" ?st ?na
        "GroupNode [(''c'', FileNode [''h1''] [])]"] seg na
    by simp
  from 1 2 3 show ?thesis by simp
qed


section \<open>Dotted names on the write path\<close>

lemma dict_set_set: "set (dict_set cs k v) \<subseteq> insert (k, v) (set cs)"
  by (induction cs) (auto split: if_splits)

lemma keys_of_dict_set:
  "keys_of (GroupNode (dict_set cs k v)) \<subseteq> insert k (keys_of v \<union> keys_of (GroupNode cs))"
  using dict_set_set [of cs k v] by fastforce

lemma add_at_keys:
  "keys_of (fst (add_at n ks leaf r)) \<subseteq>
     keys_of n \<union> set ks \<union> {leaf} \<union> (case r of Inl e \<Rightarrow> {} | Inr v \<Rightarrow> keys_of v)"
proof (induction n ks leaf r rule: add_at.induct)
  case (1 cs leaf r)
  then show ?case
    using keys_of_dict_set [of cs leaf] by (cases r) auto
next
  case (2 cs k ks leaf r)
  show ?case
  proof (cases "map_of cs k")
    case None
    obtain c' e where a: "add_at (GroupNode []) ks leaf r = (c', e)" by fastforce
    with 2(1) [OF None]
    have "keys_of c' \<subseteq> set ks \<union> {leaf} \<union> (case r of Inl e \<Rightarrow> {} | Inr v \<Rightarrow> keys_of v)"
      by simp
    with None a show ?thesis by auto
  next
    case (Some c)
    obtain c' e where a: "add_at c ks leaf r = (c', e)" by fastforce
    have "(k, c) \<in> set cs" using Some by (rule map_of_SomeD)
    then have sub: "keys_of c \<subseteq> keys_of (GroupNode cs)"
      by (auto intro!: bexI [of _ "(k, c)"])
    from 2(2) [OF Some] a
    have "keys_of c' \<subseteq> keys_of c \<union> set ks \<union> {leaf} \<union> (case r of Inl e \<Rightarrow> {} | Inr v \<Rightarrow> keys_of v)"
      by simp
    with Some a sub keys_of_dict_set [of cs k c'] show ?thesis
      by (simp del: keys_of.simps) blast
  qed
qed (auto split: sum.splits)

lemma new_node_keys: "new_node target hashes fmt md = Inr v \<Longrightarrow> keys_of v = {}"
  by (auto simp: new_node_def split: option.splits TargetType.splits)

text \<open>No call of \<^verbatim>\<open>_add_to_contents\<close> creates a child whose name has a dot: the names
  it walks and assigns are the pieces of \<^verbatim>\<open>fullname.split('.')\<close>.\<close>

lemma add_to_contents_no_dotted_key:
  assumes "k \<in> keys_of (fst (add_to_contents cont fullname hashes ext path target fmt))"
    and "CHR ''.'' \<in> set k"
  shows "k \<in> keys_of cont"
proof -
  let ?ip = "split_on CHR ''.'' fullname"
  let ?md = "[(''q_ext'', PStr ext), (''q_path'', path), (''q_target'', PStr target)]"
  have ne: "?ip \<noteq> []" by (rule split_on_nonempty)
  have "k \<in> keys_of cont \<union> set (butlast ?ip) \<union> {last ?ip} \<union>
      (case new_node target hashes fmt ?md of Inl e \<Rightarrow> {} | Inr v \<Rightarrow> keys_of v)"
    using assms(1) add_at_keys [of cont "butlast ?ip" "last ?ip" "new_node target hashes fmt ?md"]
    by (auto simp: add_to_contents_def Let_def)
  moreover have "(case new_node target hashes fmt ?md of Inl e \<Rightarrow> {} | Inr v \<Rightarrow> keys_of v) = {}"
    by (auto split: sum.splits dest: new_node_keys)
  moreover have "set (butlast ?ip) \<union> {last ?ip} = set ?ip"
  proof -
    have "set ?ip = set (butlast ?ip @ [last ?ip])" using ne by simp
    then show ?thesis by simp
  qed
  ultimately have "k \<in> keys_of cont \<or> k \<in> set ?ip" by auto
  then show ?thesis
    using assms(2) split_on_parts_free [of k "CHR ''.''" fullname] by auto
qed

lemma lstrip_slash_no_slash_head: "CHR ''/'' \<notin> set a \<Longrightarrow> lstrip_slash (a @ CHR ''.'' # b) = a @ CHR ''.'' # b"
  by (cases a) (auto simp: lstrip_slash_def)

lemma replace_slash_dot_id: "CHR ''/'' \<notin> set s \<Longrightarrow> replace_slash_dot s = s"
  by (induction s) (auto simp: replace_slash_dot_def)

lemma split_on_replace:
  "split_on CHR ''.'' (replace_slash_dot s) =
     concat (map (split_on CHR ''.'') (split_on CHR ''/'' s))"
proof (induction s)
  case Nil
  then show ?case by (simp add: replace_slash_dot_def)
next
  case (Cons c s)
  obtain w ws where sp: "split_on CHR ''/'' s = w # ws"
    using split_on_nonempty [of "CHR ''/''" s] by (cases "split_on CHR ''/'' s") auto
  obtain u us where su: "split_on CHR ''.'' w = u # us"
    using split_on_nonempty [of "CHR ''.''" w] by (cases "split_on CHR ''.'' w") auto
  have r: "replace_slash_dot (c # s) = (if c = CHR ''/'' then CHR ''.'' else c) # replace_slash_dot s"
    by (simp add: replace_slash_dot_def)
  show ?case
    using Cons.IH sp su by (auto simp: r)
qed

lemma name_segments_eq:
  "split_on CHR ''.'' (replace_slash_dot (lstrip_slash name)) = name_segments name"
  by (simp add: name_segments_def split_on_replace)

lemma map_of_dict_set_same: "map_of (dict_set cs k v) k = Some v"
  by (induction cs) auto

lemma add_at_stores:
  "walk_end n ks = Some (GroupNode g) \<Longrightarrow>
   snd (add_at n ks leaf (Inr v)) = None \<and>
   node_at (fst (add_at n ks leaf (Inr v))) (ks @ [leaf]) = Some v"
proof (induction n ks leaf "Inr v :: exn + node" arbitrary: g rule: add_at.induct)
  case (1 cs leaf)
  then show ?case by (simp add: map_of_dict_set_same)
next
  case (2 cs k ks leaf)
  show ?case
  proof (cases "map_of cs k")
    case None
    then show ?thesis
      using 2(1) [OF None, of g] 2(3) by (auto split: prod.splits simp: map_add_def)
  next
    case (Some c)
    then show ?thesis
      using 2(2) [OF Some, of g] 2(3) by (auto split: prod.splits simp: map_of_dict_set_same)
  qed
qed auto

lemma name_segments_nonempty: "name_segments name \<noteq> []"
  using split_on_nonempty [of "CHR ''.''" "replace_slash_dot (lstrip_slash name)"]
  by (simp add: name_segments_eq)

lemma save_file_contents:
  assumes "fs srcfile = Some bytes"
  shows "contents (fst (save_file dg obj_path fs io_ok st srcfile name path)) =
    fst (add_at (contents st) (butlast (name_segments name)) (last (name_segments name))
      (Inr (FileNode [dg bytes]
        [(''q_ext'', PStr []), (''q_path'', PStr path), (''q_target'', PStr ''file'')])))"
proof -
  let ?r = "add_to_contents (contents st) (replace_slash_dot (lstrip_slash name)) [dg bytes] []
      (PStr path) ''file'' None"
  have "contents (fst (save_file dg obj_path fs io_ok st srcfile name path)) = fst ?r"
    using assms by (cases ?r) (auto simp: save_file_def Let_def split: option.splits)
  also have "\<dots> = fst (add_at (contents st) (butlast (name_segments name)) (last (name_segments name))
      (Inr (FileNode [dg bytes]
        [(''q_ext'', PStr []), (''q_path'', PStr path), (''q_target'', PStr ''file'')])))"
    by (simp add: add_to_contents_def Let_def name_segments_eq new_node_def TargetType_of_def)
  finally show ?thesis .
qed

lemma name_segments_dab:
  assumes "d \<noteq> []" "CHR ''.'' \<notin> set d" "CHR ''/'' \<notin> set d"
    "CHR ''.'' \<notin> set a" "CHR ''/'' \<notin> set a" "CHR ''.'' \<notin> set b" "CHR ''/'' \<notin> set b"
  shows "name_segments (d @ ''/'' @ a @ ''.'' @ b) = [d, a, b]"
proof -
  have "lstrip_slash (d @ ''/'' @ a @ ''.'' @ b) = d @ ''/'' @ a @ ''.'' @ b"
    using assms(1,3) by (cases d) (auto simp: lstrip_slash_def)
  moreover have "split_on CHR ''/'' (d @ CHR ''/'' # a @ CHR ''.'' # b) = [d, a @ CHR ''.'' # b]"
    using assms by (simp add: split_on_append split_on_no_sep)
  moreover have "split_on CHR ''.'' (a @ CHR ''.'' # b) = [a, b]"
    using assms by (simp add: split_on_append split_on_no_sep)
  moreover have "split_on CHR ''.'' d = [d]"
    using assms by (simp add: split_on_no_sep)
  ultimately show ?thesis by (simp add: name_segments_def)
qed

text \<open>
  C9. \<^verbatim>\<open>save_file\<close> turns every slash of the name into a dot and cuts the name at every
  dot: for every name and every readable source file, the contents after the call are the
  contents before it with the file node added along the segments of the name, which are
  its pieces between slashes, each cut again at its dots; when the walk along these
  segments ends in a group, the file node is the node at that path. So the name
  \<open>d/a.b\<close> saved into a root group without a child \<open>d\<close> gives the group \<open>d\<close> with the
  group \<open>a\<close> in it and the file node as the child \<open>b\<close> of \<open>a\<close>, and \<open>a.b\<close> saved into
  a root without \<open>a\<close> gives the group \<open>a\<close> with the child \<open>b\<close>. Every child name with
  a dot that the contents hold after the call was there before it: the leaf is never stored
  under a dotted segment. The same holds for every call of \<^verbatim>\<open>_add_to_contents\<close> with
  \<^verbatim>\<open>name.lstrip('/').replace('/', '.')\<close>, which is how \<^verbatim>\<open>save_df\<close> and
  \<^verbatim>\<open>save_cached_df\<close> insert their node. A source file that cannot be read leaves the
  package as it was.
\<close>

theorem save_file_dotted_segment:
  "(fs srcfile = Some bytes \<and> CHR ''.'' \<notin> set a \<and> CHR ''/'' \<notin> set a \<and>
    CHR ''.'' \<notin> set b \<and> CHR ''/'' \<notin> set b \<and>
    contents st = GroupNode cs \<and> map_of cs a = None \<longrightarrow>
      contents (fst (save_file dg obj_path fs io_ok st srcfile (a @ ''.'' @ b) path)) =
        GroupNode (cs @ [(a, GroupNode [(b, FileNode [dg bytes]
          [(''q_ext'', PStr []), (''q_path'', PStr path), (''q_target'', PStr ''file'')])])])) \<and>
   (k \<in> keys_of (contents (fst (save_file dg obj_path fs io_ok st srcfile name path))) \<and>
    CHR ''.'' \<in> set k \<longrightarrow> k \<in> keys_of (contents st)) \<and>
   (k \<in> keys_of (fst (add_to_contents cont (replace_slash_dot (lstrip_slash name))
                          hashes ext p target fmt)) \<and>
    CHR ''.'' \<in> set k \<longrightarrow> k \<in> keys_of cont) \<and>
   (fs srcfile = Some bytes \<longrightarrow>
      contents (fst (save_file dg obj_path fs io_ok st srcfile name path)) =
        fst (add_at (contents st) (butlast (name_segments name)) (last (name_segments name))
          (Inr (FileNode [dg bytes]
            [(''q_ext'', PStr []), (''q_path'', PStr path), (''q_target'', PStr ''file'')])))) \<and>
   (fs srcfile = Some bytes \<and>
    walk_end (contents st) (butlast (name_segments name)) = Some (GroupNode g) \<longrightarrow>
      node_at (contents (fst (save_file dg obj_path fs io_ok st srcfile name path)))
          (name_segments name) =
        Some (FileNode [dg bytes]
          [(''q_ext'', PStr []), (''q_path'', PStr path), (''q_target'', PStr ''file'')])) \<and>
   (fs srcfile = Some bytes \<and> d \<noteq> [] \<and> CHR ''.'' \<notin> set d \<and> CHR ''/'' \<notin> set d \<and>
    CHR ''.'' \<notin> set a \<and> CHR ''/'' \<notin> set a \<and> CHR ''.'' \<notin> set b \<and> CHR ''/'' \<notin> set b \<and>
    contents st = GroupNode cs \<and> map_of cs d = None \<longrightarrow>
      contents (fst (save_file dg obj_path fs io_ok st srcfile (d @ ''/'' @ a @ ''.'' @ b) path)) =
        GroupNode (cs @ [(d, GroupNode [(a, GroupNode [(b, FileNode [dg bytes]
          [(''q_ext'', PStr []), (''q_path'', PStr path), (''q_target'', PStr ''file'')])])])])) \<and>
   (fs srcfile = None \<longrightarrow>
      save_file dg obj_path fs io_ok st srcfile name path = (st, Some IOError))"
proof (intro conjI impI)
  assume h: "fs srcfile = Some bytes \<and> CHR ''.'' \<notin> set a \<and> CHR ''/'' \<notin> set a \<and>
    CHR ''.'' \<notin> set b \<and> CHR ''/'' \<notin> set b \<and>
    contents st = GroupNode cs \<and> map_of cs a = None"
  have name: "replace_slash_dot (lstrip_slash (a @ ''.'' @ b)) = a @ CHR ''.'' # b"
    using h by (simp add: lstrip_slash_no_slash_head replace_slash_dot_id)
  have parts: "split_on CHR ''.'' (a @ CHR ''.'' # b) = [a, b]"
    using h by (simp add: split_on_append split_on_no_sep)
  have node: "new_node ''file'' [dg bytes] None
      [(''q_ext'', PStr []), (''q_path'', PStr path), (''q_target'', PStr ''file'')] =
      Inr (FileNode [dg bytes] [(''q_ext'', PStr []), (''q_path'', PStr path), (''q_target'', PStr ''file'')])"
    by (simp add: new_node_def TargetType_of_def)
  show "contents (fst (save_file dg obj_path fs io_ok st srcfile (a @ ''.'' @ b) path)) =
        GroupNode (cs @ [(a, GroupNode [(b, FileNode [dg bytes]
          [(''q_ext'', PStr []), (''q_path'', PStr path), (''q_target'', PStr ''file'')])])])"
    unfolding save_file_def add_to_contents_def Let_def name parts using h node
    by simp
next
  assume h: "k \<in> keys_of (contents (fst (save_file dg obj_path fs io_ok st srcfile name path))) \<and>
    CHR ''.'' \<in> set k"
  show "k \<in> keys_of (contents st)"
  proof (cases "fs srcfile")
    case None
    then show ?thesis using h by (simp add: save_file_def)
  next
    case (Some bytes)
    let ?r = "add_to_contents (contents st) (replace_slash_dot (lstrip_slash name)) [dg bytes] []
        (PStr path) ''file'' None"
    have "contents (fst (save_file dg obj_path fs io_ok st srcfile name path)) = fst ?r"
      using Some by (cases ?r) (auto simp: save_file_def Let_def split: option.splits)
    then show ?thesis
      using h by (auto dest: add_to_contents_no_dotted_key)
  qed
next
  assume "k \<in> keys_of (fst (add_to_contents cont (replace_slash_dot (lstrip_slash name))
                          hashes ext p target fmt)) \<and> CHR ''.'' \<in> set k"
  then show "k \<in> keys_of cont"
    by (auto dest: add_to_contents_no_dotted_key)
next
  assume "fs srcfile = Some bytes"
  then show "contents (fst (save_file dg obj_path fs io_ok st srcfile name path)) =
        fst (add_at (contents st) (butlast (name_segments name)) (last (name_segments name))
          (Inr (FileNode [dg bytes]
            [(''q_ext'', PStr []), (''q_path'', PStr path), (''q_target'', PStr ''file'')])))"
    by (rule save_file_contents)
next
  assume h: "fs srcfile = Some bytes \<and>
    walk_end (contents st) (butlast (name_segments name)) = Some (GroupNode g)"
  have "butlast (name_segments name) @ [last (name_segments name)] = name_segments name"
    using name_segments_nonempty by simp
  then show "node_at (contents (fst (save_file dg obj_path fs io_ok st srcfile name path)))
          (name_segments name) =
        Some (FileNode [dg bytes]
          [(''q_ext'', PStr []), (''q_path'', PStr path), (''q_target'', PStr ''file'')])"
    using h save_file_contents [of fs srcfile bytes dg obj_path io_ok st name path]
      add_at_stores [of "contents st" "butlast (name_segments name)" g "last (name_segments name)"]
    by simp
next
  assume h: "fs srcfile = Some bytes \<and> d \<noteq> [] \<and> CHR ''.'' \<notin> set d \<and> CHR ''/'' \<notin> set d \<and>
    CHR ''.'' \<notin> set a \<and> CHR ''/'' \<notin> set a \<and> CHR ''.'' \<notin> set b \<and> CHR ''/'' \<notin> set b \<and>
    contents st = GroupNode cs \<and> map_of cs d = None"
  then have segs: "name_segments (d @ ''/'' @ a @ ''.'' @ b) = [d, a, b]"
    by (intro name_segments_dab) simp_all
  show "contents (fst (save_file dg obj_path fs io_ok st srcfile (d @ ''/'' @ a @ ''.'' @ b) path)) =
        GroupNode (cs @ [(d, GroupNode [(a, GroupNode [(b, FileNode [dg bytes]
          [(''q_ext'', PStr []), (''q_path'', PStr path), (''q_target'', PStr ''file'')])])])])"
    using h save_file_contents [of fs srcfile bytes dg obj_path io_ok st "d @ ''/'' @ a @ ''.'' @ b" path]
    unfolding segs by simp
next
  assume "fs srcfile = None"
  then show "save_file dg obj_path fs io_ok st srcfile name path = (st, Some IOError)"
    by (simp add: save_file_def)
qed

theorem save_file_dotted_segment_witness:
  "contents (fst (save_file (\<lambda>bytes. ''sha-'' @ bytes) (\<lambda>h. ''objs/'' @ h)
       [''/tmp/data.csv'' \<mapsto> ''1,2''] True (fresh_package ''u'' ''p'')
       ''/tmp/data.csv'' ''data.csv'' ''/tmp/data.csv'')) =
     GroupNode [(''data'', GroupNode [(''csv'', FileNode [''sha-1,2'']
       [(''q_ext'', PStr []), (''q_path'', PStr ''/tmp/data.csv''), (''q_target'', PStr ''file'')])])] \<and>
   contents (fst (save_file (\<lambda>bytes. ''sha-'' @ bytes) (\<lambda>h. ''objs/'' @ h)
       [''/tmp/data.csv'' \<mapsto> ''1,2''] True (fresh_package ''u'' ''p'')
       ''/tmp/data.csv'' ''x/data.csv'' ''/tmp/data.csv'')) =
     GroupNode [(''x'', GroupNode [(''data'', GroupNode [(''csv'', FileNode [''sha-1,2'']
       [(''q_ext'', PStr []), (''q_path'', PStr ''/tmp/data.csv''), (''q_target'', PStr ''file'')])])])] \<and>
   node_at (contents (fst (save_file (\<lambda>bytes. ''sha-'' @ bytes) (\<lambda>h. ''objs/'' @ h)
       [''/tmp/data.csv'' \<mapsto> ''1,2''] True (fresh_package ''u'' ''p'')
       ''/tmp/data.csv'' ''x/data.csv'' ''/tmp/data.csv''))) [''x'', ''data'', ''csv''] =
     Some (FileNode [''sha-1,2'']
       [(''q_ext'', PStr []), (''q_path'', PStr ''/tmp/data.csv''), (''q_target'', PStr ''file'')]) \<and>
   save_file (\<lambda>bytes. ''sha-'' @ bytes) (\<lambda>h. ''objs/'' @ h)
       [''/tmp/data.csv'' \<mapsto> ''1,2''] True (fresh_package ''u'' ''p'')
       ''/tmp/other.csv'' ''x/data.csv'' ''/tmp/other.csv'' =
     (fresh_package ''u'' ''p'', Some IOError) \<and>
   ''x.y'' \<in> keys_of (contents (fst (save_file (\<lambda>bytes. ''sha-'' @ bytes) (\<lambda>h. ''objs/'' @ h)
       [''/tmp/data.csv'' \<mapsto> ''1,2''] True
       ((fresh_package ''u'' ''p'')\<lparr>contents := GroupNode [(''x.y'', GroupNode [])]\<rparr>)
       ''/tmp/data.csv'' ''data.csv'' ''/tmp/data.csv''))) \<and>
   ''x.y'' \<in> keys_of (contents ((fresh_package ''u'' ''p'')\<lparr>contents := GroupNode [(''x.y'', GroupNode [])]\<rparr>))"
proof -
  let ?dg = "\<lambda>bytes. ''sha-'' @ bytes"
  let ?op = "\<lambda>h. ''objs/'' @ h"
  let ?fs = "[''/tmp/data.csv'' \<mapsto> ''1,2'']"
  let ?st = "(fresh_package ''u'' ''p'')\<lparr>contents := GroupNode [(''x.y'', GroupNode [])]\<rparr>"
  note T = save_file_dotted_segment [where fs = ?fs and dg = ?dg and obj_path = ?op and io_ok = True
      and bytes = "''1,2''" and a = "''data''" and b = "''csv''" and d = "''x''" and cs = "[]"
      and g = "[]" and k = "''x.y''" and cont = "GroupNode []" and hashes = "[]" and ext = "[]"
      and p = PNone and target = "''file''" and fmt = None]
  have c: "contents (fresh_package ''u'' ''p'') = GroupNode []"
    by (simp add: fresh_package_def)
  have segs: "name_segments ''x/data.csv'' = [''x'', ''data'', ''csv'']"
    by (simp add: name_segments_def lstrip_slash_def)
  have 1: "contents (fst (save_file ?dg ?op ?fs True (fresh_package ''u'' ''p'')
       ''/tmp/data.csv'' (''data'' @ ''.'' @ ''csv'') ''/tmp/data.csv'')) =
     GroupNode ([] @ [(''data'', GroupNode [(''csv'', FileNode [?dg ''1,2'']
       [(''q_ext'', PStr []), (''q_path'', PStr ''/tmp/data.csv''), (''q_target'', PStr ''file'')])])])"
    using T [where st = "fresh_package ''u'' ''p''" and srcfile = "''/tmp/data.csv''"
        and path = "''/tmp/data.csv''" and name = "''data.csv''", THEN conjunct1] c
    by simp
  have 2: "contents (fst (save_file ?dg ?op ?fs True (fresh_package ''u'' ''p'')
       ''/tmp/data.csv'' (''x'' @ ''/'' @ ''data'' @ ''.'' @ ''csv'') ''/tmp/data.csv'')) =
     GroupNode ([] @ [(''x'', GroupNode [(''data'', GroupNode [(''csv'', FileNode [?dg ''1,2'']
       [(''q_ext'', PStr []), (''q_path'', PStr ''/tmp/data.csv''), (''q_target'', PStr ''file'')])])])])"
    using T [where st = "fresh_package ''u'' ''p''" and srcfile = "''/tmp/data.csv''"
        and path = "''/tmp/data.csv''" and name = "''data.csv''",
        THEN conjunct2, THEN conjunct2, THEN conjunct2, THEN conjunct2, THEN conjunct2,
        THEN conjunct1] c
    by simp
  have 3: "node_at (contents (fst (save_file ?dg ?op ?fs True (fresh_package ''u'' ''p'')
       ''/tmp/data.csv'' ''x/data.csv'' ''/tmp/data.csv''))) (name_segments ''x/data.csv'') =
     Some (FileNode [?dg ''1,2'']
       [(''q_ext'', PStr []), (''q_path'', PStr ''/tmp/data.csv''), (''q_target'', PStr ''file'')])"
    using T [where st = "fresh_package ''u'' ''p''" and srcfile = "''/tmp/data.csv''"
        and path = "''/tmp/data.csv''" and name = "''x/data.csv''",
        THEN conjunct2, THEN conjunct2, THEN conjunct2, THEN conjunct2, THEN conjunct1] c
    unfolding segs by simp
  have 4: "save_file ?dg ?op ?fs True (fresh_package ''u'' ''p'')
       ''/tmp/other.csv'' ''x/data.csv'' ''/tmp/other.csv'' = (fresh_package ''u'' ''p'', Some IOError)"
    using T [where st = "fresh_package ''u'' ''p''" and srcfile = "''/tmp/other.csv''"
        and path = "''/tmp/other.csv''" and name = "''x/data.csv''",
        THEN conjunct2, THEN conjunct2, THEN conjunct2, THEN conjunct2, THEN conjunct2,
        THEN conjunct2]
    by simp
  have 5: "''x.y'' \<in> keys_of (contents (fst (save_file ?dg ?op ?fs True ?st
       ''/tmp/data.csv'' ''data.csv'' ''/tmp/data.csv'')))"
    by (simp add: save_file_def add_to_contents_def new_node_def TargetType_of_def
        lstrip_slash_def replace_slash_dot_def fresh_package_def Let_def)
  have dot: "CHR ''.'' \<in> set ''x.y''" by simp
  have 6: "''x.y'' \<in> keys_of (contents ?st)"
    using 5 dot T [where st = ?st and srcfile = "''/tmp/data.csv''"
        and path = "''/tmp/data.csv''" and name = "''data.csv''",
        THEN conjunct2, THEN conjunct1]
    by blast
  from 1 2 3 4 5 6 show ?thesis unfolding segs by simp
qed

section \<open>Missing objects on the read path\<close>

lemma check_hashes_missing:
  "x \<in> set hashes \<Longrightarrow> obj_path x \<notin> store_files st \<Longrightarrow>
   check_hashes obj_path st hashes =
     Some (PackageException ''Missing object fragments; re-install the package'' [])"
  by (auto simp: check_hashes_def list_all_iff)

lemma check_hashes_present:
  "list_all (\<lambda>h. obj_path h \<in> store_files st) hashes \<Longrightarrow> check_hashes obj_path st hashes = None"
  by (simp add: check_hashes_def)

text \<open>
  C5. When a hash of a table or file node has no object in the store, \<^verbatim>\<open>get_obj\<close>
  raises the \<^verbatim>\<open>PackageException\<close> for missing fragments, whatever the readers would
  return. When every hash has its object, a file node (one hash) gives the path of its
  object, and a table node is read by the reader of its format: an HDF5 table (one hash)
  by the HDF5 reader on the path of its object, a Parquet table by the reader of the
  chosen Parquet library on the paths of all its objects in the order of the hash list
  (a \<^verbatim>\<open>ValueError\<close> of pyarrow becomes a \<^verbatim>\<open>PackageException\<close>); an HDF5 table with
  another number of hashes fails the assertion of \<^verbatim>\<open>_read_hdf5\<close>, and a format that is
  no \<^verbatim>\<open>PackageFormat\<close> raises \<^verbatim>\<open>ValueError\<close>.
\<close>

theorem get_obj_checks_hashes_first:
  "(x \<in> set hashes \<and> obj_path x \<notin> store_files st \<longrightarrow>
      get_obj R obj_path st (TableNode hashes fmt md) =
        Inl (PackageException ''Missing object fragments; re-install the package'' []) \<and>
      get_obj R obj_path st (FileNode hashes md) =
        Inl (PackageException ''Missing object fragments; re-install the package'' [])) \<and>
   (list_all (\<lambda>h. obj_path h \<in> store_files st) hashes \<longrightarrow>
      get_obj R obj_path st (TableNode hashes fmt md) =
        map_sum id Frame (dataframe R obj_path hashes fmt)) \<and>
   (obj_path h \<in> store_files st \<longrightarrow>
      get_obj R obj_path st (FileNode [h] md) = Inr (ObjPath (obj_path h))) \<and>
   (obj_path h \<in> store_files st \<and> PackageFormat_of fmt = Some HDF5 \<longrightarrow>
      get_obj R obj_path st (TableNode [h] fmt md) = map_sum id Frame (hdf_get R (obj_path h))) \<and>
   (list_all (\<lambda>h. obj_path h \<in> store_files st) hashes \<and> PackageFormat_of fmt = Some HDF5 \<and>
    length hashes \<noteq> 1 \<longrightarrow>
      get_obj R obj_path st (TableNode hashes fmt md) =
        Inl (AssertionError ''Multi-file DFs not supported in HDF5.'')) \<and>
   (list_all (\<lambda>h. obj_path h \<in> store_files st) hashes \<and> PackageFormat_of fmt = Some PARQUET \<and>
    parquet_lib R = SPARK \<longrightarrow>
      get_obj R obj_path st (TableNode hashes fmt md) =
        map_sum id Frame (spark_read R (map obj_path hashes))) \<and>
   (list_all (\<lambda>h. obj_path h \<in> store_files st) hashes \<and> PackageFormat_of fmt = Some PARQUET \<and>
    parquet_lib R = ARROW \<longrightarrow>
      get_obj R obj_path st (TableNode hashes fmt md) =
        (case arrow_read R (map obj_path hashes) of
           Inl (ValueError err) \<Rightarrow> Inl (PackageException ''{0}'' [err])
         | Inl e \<Rightarrow> Inl e
         | Inr df \<Rightarrow> Inr (Frame df))) \<and>
   (list_all (\<lambda>h. obj_path h \<in> store_files st) hashes \<and> PackageFormat_of fmt = None \<longrightarrow>
      get_obj R obj_path st (TableNode hashes fmt md) = Inl (ValueError []))"
proof (intro conjI impI)
  assume "x \<in> set hashes \<and> obj_path x \<notin> store_files st"
  then have c: "check_hashes obj_path st hashes =
      Some (PackageException ''Missing object fragments; re-install the package'' [])"
    by (blast intro: check_hashes_missing)
  show "get_obj R obj_path st (TableNode hashes fmt md) =
      Inl (PackageException ''Missing object fragments; re-install the package'' [])"
    by (simp add: get_obj_def c)
  show "get_obj R obj_path st (FileNode hashes md) =
      Inl (PackageException ''Missing object fragments; re-install the package'' [])"
    by (simp add: get_obj_def c)
next
  assume "list_all (\<lambda>h. obj_path h \<in> store_files st) hashes"
  then show "get_obj R obj_path st (TableNode hashes fmt md) =
      map_sum id Frame (dataframe R obj_path hashes fmt)"
    by (simp add: get_obj_def check_hashes_present)
next
  assume "obj_path h \<in> store_files st"
  then show "get_obj R obj_path st (FileNode [h] md) = Inr (ObjPath (obj_path h))"
    by (simp add: get_obj_def check_hashes_def file_of_def)
next
  assume "obj_path h \<in> store_files st \<and> PackageFormat_of fmt = Some HDF5"
  then show "get_obj R obj_path st (TableNode [h] fmt md) =
      map_sum id Frame (hdf_get R (obj_path h))"
    by (simp add: get_obj_def check_hashes_def dataframe_def read_hdf5_def)
next
  assume "list_all (\<lambda>h. obj_path h \<in> store_files st) hashes \<and> PackageFormat_of fmt = Some HDF5 \<and>
    length hashes \<noteq> 1"
  then show "get_obj R obj_path st (TableNode hashes fmt md) =
      Inl (AssertionError ''Multi-file DFs not supported in HDF5.'')"
    by (cases hashes; cases "tl hashes")
      (simp_all add: get_obj_def check_hashes_def dataframe_def read_hdf5_def)
next
  assume "list_all (\<lambda>h. obj_path h \<in> store_files st) hashes \<and> PackageFormat_of fmt = Some PARQUET \<and>
    parquet_lib R = SPARK"
  then show "get_obj R obj_path st (TableNode hashes fmt md) =
      map_sum id Frame (spark_read R (map obj_path hashes))"
    by (simp add: get_obj_def check_hashes_def dataframe_def)
next
  assume "list_all (\<lambda>h. obj_path h \<in> store_files st) hashes \<and> PackageFormat_of fmt = Some PARQUET \<and>
    parquet_lib R = ARROW"
  then show "get_obj R obj_path st (TableNode hashes fmt md) =
      (case arrow_read R (map obj_path hashes) of
         Inl (ValueError err) \<Rightarrow> Inl (PackageException ''{0}'' [err])
       | Inl e \<Rightarrow> Inl e
       | Inr df \<Rightarrow> Inr (Frame df))"
    by (simp add: get_obj_def check_hashes_def dataframe_def split: sum.splits exn.splits)
next
  assume "list_all (\<lambda>h. obj_path h \<in> store_files st) hashes \<and> PackageFormat_of fmt = None"
  then show "get_obj R obj_path st (TableNode hashes fmt md) = Inl (ValueError [])"
    by (simp add: get_obj_def check_hashes_def dataframe_def)
qed

theorem get_obj_checks_hashes_first_witness:
  "get_obj \<lparr>parquet_lib = ARROW, hdf_get = (\<lambda>p. Inr (''hdf:'' @ p)),
            arrow_read = (\<lambda>ps. Inr (''arrow:'' @ concat ps)),
            spark_read = (\<lambda>ps. Inr (''spark:'' @ concat ps))\<rparr>
      (\<lambda>h. ''objs/'' @ h) ((fresh_package ''u'' ''p'')\<lparr>store_files := {''objs/h1'', ''objs/h3''}\<rparr>)
      (TableNode [''h1'', ''h2''] ''PARQUET'' []) =
     Inl (PackageException ''Missing object fragments; re-install the package'' []) \<and>
   get_obj \<lparr>parquet_lib = ARROW, hdf_get = (\<lambda>p. Inr (''hdf:'' @ p)),
            arrow_read = (\<lambda>ps. Inr (''arrow:'' @ concat ps)),
            spark_read = (\<lambda>ps. Inr (''spark:'' @ concat ps))\<rparr>
      (\<lambda>h. ''objs/'' @ h) ((fresh_package ''u'' ''p'')\<lparr>store_files := {''objs/h1'', ''objs/h3''}\<rparr>)
      (FileNode [''h1''] []) = Inr (ObjPath ''objs/h1'') \<and>
   get_obj \<lparr>parquet_lib = ARROW, hdf_get = (\<lambda>p. Inr (''hdf:'' @ p)),
            arrow_read = (\<lambda>ps. Inr (''arrow:'' @ concat ps)),
            spark_read = (\<lambda>ps. Inr (''spark:'' @ concat ps))\<rparr>
      (\<lambda>h. ''objs/'' @ h) ((fresh_package ''u'' ''p'')\<lparr>store_files := {''objs/h1'', ''objs/h3''}\<rparr>)
      (TableNode [''h3'', ''h1''] ''PARQUET'' []) = Inr (Frame ''arrow:objs/h3objs/h1'') \<and>
   get_obj \<lparr>parquet_lib = SPARK, hdf_get = (\<lambda>p. Inr (''hdf:'' @ p)),
            arrow_read = (\<lambda>ps. Inr (''arrow:'' @ concat ps)),
            spark_read = (\<lambda>ps. Inr (''spark:'' @ concat ps))\<rparr>
      (\<lambda>h. ''objs/'' @ h) ((fresh_package ''u'' ''p'')\<lparr>store_files := {''objs/h1'', ''objs/h3''}\<rparr>)
      (TableNode [''h3'', ''h1''] ''PARQUET'' []) = Inr (Frame ''spark:objs/h3objs/h1'') \<and>
   get_obj \<lparr>parquet_lib = ARROW, hdf_get = (\<lambda>p. Inr (''hdf:'' @ p)),
            arrow_read = (\<lambda>ps. Inr (''arrow:'' @ concat ps)),
            spark_read = (\<lambda>ps. Inr (''spark:'' @ concat ps))\<rparr>
      (\<lambda>h. ''objs/'' @ h) ((fresh_package ''u'' ''p'')\<lparr>store_files := {''objs/h1'', ''objs/h3''}\<rparr>)
      (TableNode [''h1''] ''HDF5'' []) = Inr (Frame ''hdf:objs/h1'') \<and>
   get_obj \<lparr>parquet_lib = ARROW, hdf_get = (\<lambda>p. Inr (''hdf:'' @ p)),
            arrow_read = (\<lambda>ps. Inr (''arrow:'' @ concat ps)),
            spark_read = (\<lambda>ps. Inr (''spark:'' @ concat ps))\<rparr>
      (\<lambda>h. ''objs/'' @ h) ((fresh_package ''u'' ''p'')\<lparr>store_files := {''objs/h1'', ''objs/h3''}\<rparr>)
      (TableNode [''h3'', ''h1''] ''HDF5'' []) =
     Inl (AssertionError ''Multi-file DFs not supported in HDF5.'') \<and>
   get_obj \<lparr>parquet_lib = ARROW, hdf_get = (\<lambda>p. Inr (''hdf:'' @ p)),
            arrow_read = (\<lambda>ps. Inr (''arrow:'' @ concat ps)),
            spark_read = (\<lambda>ps. Inr (''spark:'' @ concat ps))\<rparr>
      (\<lambda>h. ''objs/'' @ h) ((fresh_package ''u'' ''p'')\<lparr>store_files := {''objs/h1'', ''objs/h3''}\<rparr>)
      (TableNode [''h1''] ''csv'' []) = Inl (ValueError [])"
proof -
  let ?A = "\<lparr>parquet_lib = ARROW, hdf_get = (\<lambda>p. Inr (''hdf:'' @ p)),
            arrow_read = (\<lambda>ps. Inr (''arrow:'' @ concat ps)),
            spark_read = (\<lambda>ps. Inr (''spark:'' @ concat ps))\<rparr> :: string readers"
  let ?S = "\<lparr>parquet_lib = SPARK, hdf_get = (\<lambda>p. Inr (''hdf:'' @ p)),
            arrow_read = (\<lambda>ps. Inr (''arrow:'' @ concat ps)),
            spark_read = (\<lambda>ps. Inr (''spark:'' @ concat ps))\<rparr> :: string readers"
  let ?op = "\<lambda>h. ''objs/'' @ h"
  let ?st = "(fresh_package ''u'' ''p'')\<lparr>store_files := {''objs/h1'', ''objs/h3''}\<rparr>"
  have f: "PackageFormat_of ''PARQUET'' = Some PARQUET" "PackageFormat_of ''HDF5'' = Some HDF5"
    "PackageFormat_of ''csv'' = None"
    by (simp_all add: PackageFormat_of_def)
  have 1: "get_obj ?A ?op ?st (TableNode [''h1'', ''h2''] ''PARQUET'' []) =
      Inl (PackageException ''Missing object fragments; re-install the package'' [])"
    using get_obj_checks_hashes_first [where x = "''h2''" and h = "''h1''" and hashes = "[''h1'', ''h2'']"
        and obj_path = ?op and st = ?st and R = ?A and fmt = "''PARQUET''" and md = "[]"]
    by simp
  have 2: "get_obj ?A ?op ?st (FileNode [''h1''] []) = Inr (ObjPath (?op ''h1''))"
    using get_obj_checks_hashes_first [where h = "''h1''" and x = "''h1''" and hashes = "[''h1'']"
        and fmt = "''HDF5''" and obj_path = ?op and st = ?st and R = ?A and md = "[]"]
    by simp
  have 3: "get_obj ?A ?op ?st (TableNode [''h3'', ''h1''] ''PARQUET'' []) =
      Inr (Frame (''arrow:'' @ concat (map ?op [''h3'', ''h1''])))"
    using get_obj_checks_hashes_first [where x = "''h1''" and h = "''h1''" and hashes = "[''h3'', ''h1'']"
        and obj_path = ?op and st = ?st and R = ?A and fmt = "''PARQUET''" and md = "[]"] f
    by (simp add: dataframe_def read_hdf5_def)
  have 4: "get_obj ?S ?op ?st (TableNode [''h3'', ''h1''] ''PARQUET'' []) =
      map_sum id Frame (spark_read ?S (map ?op [''h3'', ''h1'']))"
    using get_obj_checks_hashes_first [where x = "''h1''" and h = "''h1''" and hashes = "[''h3'', ''h1'']"
        and obj_path = ?op and st = ?st and R = ?S and fmt = "''PARQUET''" and md = "[]"] f
    by (simp add: dataframe_def read_hdf5_def)
  have 5: "get_obj ?A ?op ?st (TableNode [''h1''] ''HDF5'' []) =
      map_sum id Frame (hdf_get ?A (?op ''h1''))"
    using get_obj_checks_hashes_first [where h = "''h1''" and x = "''h1''" and hashes = "[''h1'']"
        and fmt = "''HDF5''" and obj_path = ?op and st = ?st and R = ?A and md = "[]"] f
    by (simp add: dataframe_def read_hdf5_def)
  have 6: "get_obj ?A ?op ?st (TableNode [''h3'', ''h1''] ''HDF5'' []) =
      Inl (AssertionError ''Multi-file DFs not supported in HDF5.'')"
    using get_obj_checks_hashes_first [where x = "''h1''" and h = "''h1''" and hashes = "[''h3'', ''h1'']"
        and obj_path = ?op and st = ?st and R = ?A and fmt = "''HDF5''" and md = "[]"] f
    by (simp add: dataframe_def read_hdf5_def)
  have 7: "get_obj ?A ?op ?st (TableNode [''h1''] ''csv'' []) = Inl (ValueError [])"
    using get_obj_checks_hashes_first [where x = "''h1''" and h = "''h1''" and hashes = "[''h1'']"
        and obj_path = ?op and st = ?st and R = ?A and fmt = "''csv''" and md = "[]"] f
    by (simp add: dataframe_def read_hdf5_def)
  from 1 2 3 4 5 6 7 show ?thesis by simp
qed

section \<open>The order of insertion and store write in save_file\<close>

text \<open>
  C8, at a failing store write. \<^verbatim>\<open>save_file\<close> calls \<^verbatim>\<open>_add_to_contents\<close> before it
  copies the file: when the copy fails, the contents already hold the file node, and the
  object it names is not in the store.
\<close>

theorem save_file_failed_write_leaves_node:
  "save_file (\<lambda>bytes. ''sha-'' @ bytes) (\<lambda>h. ''objs/'' @ h) [''/tmp/a.bin'' \<mapsto> ''xyz''] False
     (fresh_package ''u'' ''p'') ''/tmp/a.bin'' ''a'' ''/tmp/a.bin'' =
     ((fresh_package ''u'' ''p'')\<lparr>contents := GroupNode [(''a'', FileNode [''sha-xyz'']
         [(''q_ext'', PStr []), (''q_path'', PStr ''/tmp/a.bin''), (''q_target'', PStr ''file'')])]\<rparr>,
      Some IOError) \<and>
   ''objs/sha-xyz'' \<notin> store_files (fst (save_file (\<lambda>bytes. ''sha-'' @ bytes) (\<lambda>h. ''objs/'' @ h)
     [''/tmp/a.bin'' \<mapsto> ''xyz''] False (fresh_package ''u'' ''p'') ''/tmp/a.bin'' ''a'' ''/tmp/a.bin''))"
  by (simp add: save_file_def add_to_contents_def new_node_def TargetType_of_def
      lstrip_slash_def replace_slash_dot_def fresh_package_def Let_def)

section \<open>Error kinds\<close>

text \<open>
  C7 as stated fails: a missing tag, an unknown snapshot hash, a missing object and an
  unrecognized target are all raised as one class, \<^verbatim>\<open>PackageException\<close>.
\<close>

theorem error_kinds_coincide:
  "raised_class (load_contents (fresh_package ''u'' ''p'') None) = Some ''PackageException'' \<and>
   raised_class (load_contents (fresh_package ''u'' ''p'') (Some ''0a1b'')) = Some ''PackageException'' \<and>
   map_option exn_class (check_hashes ((@) ''objs/'') (fresh_package ''u'' ''p'') [''0a1b'']) =
     Some ''PackageException'' \<and>
   map_option exn_class (snd (add_to_contents (GroupNode []) ''a'' [] [] PNone ''table'' None)) =
     Some ''PackageException''"
  by (simp add: raised_class_def load_contents_def fresh_package_def check_hashes_def
      add_to_contents_def new_node_def TargetType_of_def)

lemma add_at_raises:
  "snd (add_at n ks leaf (Inl e)) = Some (if walk_end n ks = None then AttributeError else e)"
proof (induction n ks leaf "Inl e :: exn + node" rule: add_at.induct)
  case (2 cs k ks leaf)
  then show ?case
    by (cases "map_of cs k") (auto split: prod.splits)
qed auto

lemma walk_end_fresh: "walk_end (GroupNode []) ks \<noteq> None"
  by (induction ks) auto

text \<open>
  C7, amended. Each of the four failures is raised as a \<^verbatim>\<open>PackageException\<close>; they
  differ in the message only: a missing \<^verbatim>\<open>latest\<close> tag, a hash without a snapshot
  file, a hash without an object in the store, and a target that is no \<^verbatim>\<open>TargetType\<close>.
  For the last, \<^verbatim>\<open>_add_to_contents\<close> first walks to the parent of the new node: only
  when that walk runs into a table or file node it raises \<^verbatim>\<open>AttributeError\<close> before
  the target is looked at.
\<close>

theorem package_exception_messages:
  "(latest_tag st = None \<longrightarrow>
      load_contents st None =
        Inl (PackageException ''Could not find latest tag for package {0}/{1}'' [user st, pkgname st])) \<and>
   (snapshots st h = None \<longrightarrow>
      load_contents st (Some h) =
        Inl (PackageException ''Invalid hash for package {owner}/{pkg}: {hash}'' [h, user st, pkgname st])) \<and>
   (x \<in> set hashes \<and> obj_path x \<notin> store_files st \<longrightarrow>
      check_hashes obj_path st hashes =
        Some (PackageException ''Missing object fragments; re-install the package'' [])) \<and>
   (TargetType_of target = None \<longrightarrow>
      snd (add_to_contents cont fullname hs ext path target fmt) =
        Some (if walk_end cont (butlast (split_on CHR ''.'' fullname)) = None then AttributeError
              else PackageException ''Unrecognized target {tgt}'' [target])) \<and>
   (TargetType_of target = None \<and> CHR ''.'' \<notin> set fullname \<longrightarrow>
      snd (add_to_contents cont fullname hs ext path target fmt) =
        Some (PackageException ''Unrecognized target {tgt}'' [target]))"
proof (intro conjI impI)
  assume "latest_tag st = None"
  then show "load_contents st None =
      Inl (PackageException ''Could not find latest tag for package {0}/{1}'' [user st, pkgname st])"
    by (simp add: load_contents_def)
next
  assume "snapshots st h = None"
  then show "load_contents st (Some h) =
      Inl (PackageException ''Invalid hash for package {owner}/{pkg}: {hash}'' [h, user st, pkgname st])"
    by (simp add: load_contents_def)
next
  assume "x \<in> set hashes \<and> obj_path x \<notin> store_files st"
  then show "check_hashes obj_path st hashes =
      Some (PackageException ''Missing object fragments; re-install the package'' [])"
    by (blast intro: check_hashes_missing)
next
  assume "TargetType_of target = None"
  then show "snd (add_to_contents cont fullname hs ext path target fmt) =
      Some (if walk_end cont (butlast (split_on CHR ''.'' fullname)) = None then AttributeError
            else PackageException ''Unrecognized target {tgt}'' [target])"
    by (simp add: add_to_contents_def new_node_def Let_def add_at_raises)
next
  assume "TargetType_of target = None \<and> CHR ''.'' \<notin> set fullname"
  then show "snd (add_to_contents cont fullname hs ext path target fmt) =
      Some (PackageException ''Unrecognized target {tgt}'' [target])"
    by (simp add: add_to_contents_def new_node_def Let_def add_at_raises split_on_no_sep)
qed

theorem package_exception_messages_witness:
  "load_contents (fresh_package ''u'' ''p'') None =
     Inl (PackageException ''Could not find latest tag for package {0}/{1}'' [''u'', ''p'']) \<and>
   load_contents (fresh_package ''u'' ''p'') (Some ''0a1b'') =
     Inl (PackageException ''Invalid hash for package {owner}/{pkg}: {hash}'' [''0a1b'', ''u'', ''p'']) \<and>
   check_hashes ((@) ''objs/'') (fresh_package ''u'' ''p'') [''0a1b''] =
     Some (PackageException ''Missing object fragments; re-install the package'' []) \<and>
   snd (add_to_contents (GroupNode [(''g'', GroupNode [])]) ''g.x.y'' [] [] PNone ''table'' None) =
     Some (PackageException ''Unrecognized target {tgt}'' [''table'']) \<and>
   snd (add_to_contents (GroupNode [(''f'', FileNode [''0a1b''] [])]) ''f.x.y'' [] [] PNone ''table'' None) =
     Some AttributeError"
proof -
  have t: "TargetType_of ''table'' = None"
    by (simp add: TargetType_of_def)
  have w: "walk_end (GroupNode [(''g'', GroupNode [])]) (butlast (split_on CHR ''.'' ''g.x.y'')) \<noteq> None"
    "walk_end (GroupNode [(''f'', FileNode [''0a1b''] [])]) (butlast (split_on CHR ''.'' ''f.x.y'')) = None"
    by simp_all
  have 1: "load_contents (fresh_package ''u'' ''p'') None =
      Inl (PackageException ''Could not find latest tag for package {0}/{1}'' [''u'', ''p'']) \<and>
    load_contents (fresh_package ''u'' ''p'') (Some ''0a1b'') =
      Inl (PackageException ''Invalid hash for package {owner}/{pkg}: {hash}'' [''0a1b'', ''u'', ''p'']) \<and>
    check_hashes ((@) ''objs/'') (fresh_package ''u'' ''p'') [''0a1b''] =
      Some (PackageException ''Missing object fragments; re-install the package'' [])"
    using package_exception_messages [where st = "fresh_package ''u'' ''p''" and h = "''0a1b''"
        and x = "''0a1b''" and hashes = "[''0a1b'']" and obj_path = "(@) ''objs/''"
        and target = "''file''" and fullname = "''a''" and cont = "GroupNode []" and hs = "[]"
        and ext = "[]" and path = PNone and fmt = None]
    by (simp add: fresh_package_def)
  have 2: "snd (add_to_contents (GroupNode [(''g'', GroupNode [])]) ''g.x.y'' [] [] PNone ''table'' None) =
      Some (PackageException ''Unrecognized target {tgt}'' [''table''])"
    using package_exception_messages [where target = "''table''" and fullname = "''g.x.y''"
        and cont = "GroupNode [(''g'', GroupNode [])]" and hs = "[]" and ext = "[]"
        and path = PNone and fmt = None] t w(1)
    by presburger
  have 3: "snd (add_to_contents (GroupNode [(''f'', FileNode [''0a1b''] [])]) ''f.x.y'' [] [] PNone ''table'' None) =
      Some AttributeError"
    using package_exception_messages [where target = "''table''" and fullname = "''f.x.y''"
        and cont = "GroupNode [(''f'', FileNode [''0a1b''] [])]" and hs = "[]" and ext = "[]"
        and path = PNone and fmt = None] t w(2)
    by presburger
  from 1 2 3 show ?thesis by simp
qed

section \<open>The order of the writes in save_contents\<close>

lemma save_contents_unfold:
  "save_contents digest st =
     st\<lparr>snapshots := (snapshots st)(get_hash digest st \<mapsto> Complete (dump (contents st))),
        tags_dir := True,
        latest_tag := Some (get_hash digest st)\<rparr>"
  by (simp add: save_contents_def save_contents_steps_def run_steps_def Let_def)

text \<open>
  C4 as stated fails. A package is saved with an empty root, so that its tag is the hash
  of that snapshot. After \<^verbatim>\<open>save_group('a')\<close>, a second \<^verbatim>\<open>save_contents\<close> is
  interrupted when \<^verbatim>\<open>open(latest_tag, 'w')\<close> has emptied the tag file and the new hash
  is not written: the previous tag is lost and \<^verbatim>\<open>_load_contents\<close> fails. And when the
  contents are unchanged, a second \<^verbatim>\<open>save_contents\<close> interrupted after
  \<^verbatim>\<open>open(dest, 'w')\<close> leaves the tag pointing at a snapshot file that is empty.
\<close>

theorem save_contents_interrupted_loses_tag:
  "latest_tag (fst (save_group (save_contents example_digest (fresh_package ''u'' ''p'')) ''a'')) =
     Some ''h1'' \<and>
   latest_tag (save_contents_interrupted example_digest 4
     (fst (save_group (save_contents example_digest (fresh_package ''u'' ''p'')) ''a''))) =
     Some [] \<and>
   load_contents (save_contents_interrupted example_digest 4
     (fst (save_group (save_contents example_digest (fresh_package ''u'' ''p'')) ''a''))) None =
     Inl (PackageException ''Invalid hash for package {owner}/{pkg}: {hash}'' [[], ''u'', ''p'']) \<and>
   latest_tag (save_contents_interrupted example_digest 1
     (save_contents example_digest (fresh_package ''u'' ''p''))) =
     Some ''h1'' \<and>
   snapshots (save_contents_interrupted example_digest 1
     (save_contents example_digest (fresh_package ''u'' ''p''))) ''h1'' =
     Some Partial"
proof -
  let ?s0 = "save_contents example_digest (fresh_package ''u'' ''p'')"
  let ?s1 = "fst (save_group ?s0 ''a'')"
  have s0: "?s0 = (fresh_package ''u'' ''p'')\<lparr>
      snapshots := [''h1'' \<mapsto> Complete (dump (GroupNode []))], tags_dir := True,
      latest_tag := Some ''h1''\<rparr>"
    by (simp add: save_contents_unfold get_hash_def hash_contents_def example_digest_def
        fresh_package_def)
  have s1: "?s1 = (fresh_package ''u'' ''p'')\<lparr>contents := GroupNode [(''a'', GroupNode [])],
      snapshots := [''h1'' \<mapsto> Complete (dump (GroupNode []))], tags_dir := True,
      latest_tag := Some ''h1''\<rparr>"
    unfolding s0
    by (simp add: save_group_def add_to_contents_def new_node_def TargetType_of_def
        lstrip_slash_def replace_slash_dot_def fresh_package_def Let_def)
  have h0: "get_hash example_digest ?s0 = ''h1''"
    unfolding s0 by (simp add: get_hash_def hash_contents_def example_digest_def fresh_package_def)
  have h1: "get_hash example_digest ?s1 = ''h2''"
    unfolding s1 by (simp add: get_hash_def hash_contents_def example_digest_def sort_keys_def)
  have a: "latest_tag ?s1 = Some ''h1''"
    unfolding s1 by simp
  have b: "latest_tag (save_contents_interrupted example_digest 4 ?s1) = Some []"
    by (simp add: save_contents_interrupted_def save_contents_steps_def run_steps_def Let_def)
  have c: "load_contents (save_contents_interrupted example_digest 4 ?s1) None =
      Inl (PackageException ''Invalid hash for package {owner}/{pkg}: {hash}'' [[], ''u'', ''p''])"
    unfolding save_contents_interrupted_def save_contents_steps_def h1 unfolding s1
    by (simp add: run_steps_def load_contents_def fresh_package_def Let_def)
  have d: "latest_tag (save_contents_interrupted example_digest 1 ?s0) = Some ''h1''"
    unfolding save_contents_interrupted_def save_contents_steps_def h0 unfolding s0
    by (simp add: run_steps_def Let_def)
  have e: "snapshots (save_contents_interrupted example_digest 1 ?s0) ''h1'' = Some Partial"
    unfolding save_contents_interrupted_def save_contents_steps_def h0
    by (simp add: run_steps_def Let_def)
  from a b c d e show ?thesis by simp
qed

text \<open>
  C4, amended. \<^verbatim>\<open>save_contents\<close> writes the snapshot file under the hash of the contents and
  then the tag. When it has run, the \<^verbatim>\<open>latest\<close> tag is the hash of the contents in
  memory and the snapshot under that hash is the serialized tree. Interrupted before the
  tag file is opened (after at most three of its five file operations), it leaves the
  tag as it was; from the second operation on, the snapshot under the new hash is
  complete. So after the snapshot is written and until the tag file is opened the old
  tag stands and the new snapshot is complete.
\<close>

theorem save_contents_snapshot_before_tag:
  "latest_tag (save_contents digest st) = Some (get_hash digest (save_contents digest st)) \<and>
   snapshots (save_contents digest st) (get_hash digest st) = Some (Complete (dump (contents st))) \<and>
   contents (save_contents digest st) = contents st \<and>
   (k \<le> 3 \<longrightarrow> latest_tag (save_contents_interrupted digest k st) = latest_tag st) \<and>
   (2 \<le> k \<longrightarrow>
      snapshots (save_contents_interrupted digest k st) (get_hash digest st) =
        Some (Complete (dump (contents st)))) \<and>
   (5 \<le> k \<longrightarrow> save_contents_interrupted digest k st = save_contents digest st)"
proof -
  have full: "latest_tag (save_contents digest st) = Some (get_hash digest (save_contents digest st)) \<and>
      snapshots (save_contents digest st) (get_hash digest st) = Some (Complete (dump (contents st))) \<and>
      contents (save_contents digest st) = contents st"
    by (simp add: save_contents_unfold get_hash_def)
  have len: "length (save_contents_steps digest st) = 5"
    by (simp add: save_contents_steps_def Let_def)
  have early: "latest_tag (save_contents_interrupted digest k st) = latest_tag st" if "k \<le> 3"
  proof -
    from that consider "k = 0" | "k = 1" | "k = 2" | "k = 3" by linarith
    then show ?thesis
      by cases
        (simp_all add: save_contents_interrupted_def save_contents_steps_def run_steps_def Let_def)
  qed
  have late: "save_contents_interrupted digest k st = save_contents digest st" if "5 \<le> k"
    using that len by (simp add: save_contents_interrupted_def save_contents_def)
  have mid: "snapshots (save_contents_interrupted digest k st) (get_hash digest st) =
      Some (Complete (dump (contents st)))" if "2 \<le> k"
  proof -
    from that consider "k = 2" | "k = 3" | "k = 4" | "5 \<le> k" by linarith
    then show ?thesis
    proof cases
      case 4
      then show ?thesis using late full by simp
    qed (simp_all add: save_contents_interrupted_def save_contents_steps_def run_steps_def Let_def)
  qed
  from full early late mid show ?thesis by blast
qed

theorem save_contents_snapshot_before_tag_witness:
  "latest_tag (save_contents (\<lambda>d. ''h2'')
      ((fresh_package ''u'' ''p'')\<lparr>contents := GroupNode [(''a'', GroupNode [])],
         snapshots := [''h1'' \<mapsto> Complete (dump (GroupNode []))], latest_tag := Some ''h1''\<rparr>)) =
     Some ''h2'' \<and>
   latest_tag (save_contents_interrupted (\<lambda>d. ''h2'') 3
      ((fresh_package ''u'' ''p'')\<lparr>contents := GroupNode [(''a'', GroupNode [])],
         snapshots := [''h1'' \<mapsto> Complete (dump (GroupNode []))], latest_tag := Some ''h1''\<rparr>)) =
     Some ''h1'' \<and>
   snapshots (save_contents_interrupted (\<lambda>d. ''h2'') 3
      ((fresh_package ''u'' ''p'')\<lparr>contents := GroupNode [(''a'', GroupNode [])],
         snapshots := [''h1'' \<mapsto> Complete (dump (GroupNode []))], latest_tag := Some ''h1''\<rparr>)) ''h2'' =
     Some (Complete (dump (GroupNode [(''a'', GroupNode [])])))"
proof -
  let ?st = "(fresh_package ''u'' ''p'')\<lparr>contents := GroupNode [(''a'', GroupNode [])],
         snapshots := [''h1'' \<mapsto> Complete (dump (GroupNode []))], latest_tag := Some ''h1''\<rparr>"
  have a: "(3::nat) \<le> 3" "(2::nat) \<le> 3" by simp_all
  have h: "get_hash (\<lambda>d. ''h2'') ?st = ''h2''" "get_hash (\<lambda>d. ''h2'') (save_contents (\<lambda>d. ''h2'') ?st) = ''h2''"
    by (simp_all add: get_hash_def hash_contents_def)
  have c: "contents ?st = GroupNode [(''a'', GroupNode [])]" "latest_tag ?st = Some ''h1''"
    by simp_all
  show ?thesis
    using save_contents_snapshot_before_tag [of "\<lambda>d. ''h2''" ?st 3] a
    unfolding h c by blast
qed


section \<open>The save operations keep dict keys unique\<close>

lemma dict_set_keys:
  "map fst (dict_set cs k v) = (if k \<in> fst ` set cs then map fst cs else map fst cs @ [k])"
  by (induction cs) force+

lemma dict_set_distinct: "distinct (map fst cs) \<Longrightarrow> distinct (map fst (dict_set cs k v))"
  by (simp add: dict_set_keys)

lemma valid_tree_dict_set:
  assumes "valid_tree (GroupNode cs)" "valid_tree v"
  shows "valid_tree (GroupNode (dict_set cs k v))"
  using assms dict_set_set [of cs k v]
  by (auto simp: dict_set_distinct list_all_iff)

lemma add_at_valid:
  "valid_tree n \<Longrightarrow> (\<And>v. r = Inr v \<Longrightarrow> valid_tree v) \<Longrightarrow> valid_tree (fst (add_at n ks leaf r))"
proof (induction n ks leaf r rule: add_at.induct)
  case (1 cs leaf r)
  then show ?case
    using valid_tree_dict_set [of cs _ leaf] by (cases r) auto
next
  case (2 cs k ks leaf r)
  show ?case
  proof (cases "map_of cs k")
    case None
    obtain c' e where a: "add_at (GroupNode []) ks leaf r = (c', e)" by fastforce
    have "valid_tree c'" using 2(1) [OF None] 2(4) a by simp
    moreover have "k \<notin> fst ` set cs" using None by (simp add: map_of_eq_None_iff)
    ultimately show ?thesis using None a 2(3) by (simp add: list_all_iff)
  next
    case (Some c)
    obtain c' e where a: "add_at c ks leaf r = (c', e)" by fastforce
    have "(k, c) \<in> set cs" using Some by (rule map_of_SomeD)
    then have "valid_tree c" using 2(3) by (auto simp: list_all_iff)
    then have "valid_tree c'" using 2(2) [OF Some] 2(4) a by simp
    then show ?thesis using Some a 2(3) valid_tree_dict_set [of cs c' k] by simp
  qed
qed (auto split: sum.splits)

lemma new_node_valid:
  "new_node target hashes fmt [(''q_ext'', e), (''q_path'', p), (''q_target'', t)] = Inr v \<Longrightarrow>
   valid_tree v"
  by (auto simp: new_node_def split: option.splits TargetType.splits)

lemma add_to_contents_valid:
  "valid_tree cont \<Longrightarrow> valid_tree (fst (add_to_contents cont fullname hashes ext path target fmt))"
  by (simp add: add_to_contents_def Let_def add_at_valid new_node_valid)

lemma save_group_valid: "valid_tree (contents st) \<Longrightarrow> valid_tree (contents (fst (save_group st name)))"
  using add_to_contents_valid [of "contents st"]
  by (auto simp: save_group_def Let_def split: prod.splits) (metis fst_conv)

lemma save_file_valid:
  "valid_tree (contents st) \<Longrightarrow>
   valid_tree (contents (fst (save_file dg obj_path fs io_ok st srcfile name path)))"
  using add_to_contents_valid [of "contents st" "replace_slash_dot (lstrip_slash name)"]
  by (auto simp: save_file_def Let_def split: prod.splits option.splits) (metis fst_conv)+

lemma save_package_tree_valid:
  "valid_tree (contents st) \<Longrightarrow> valid_tree pkgnode \<Longrightarrow>
   valid_tree (contents (fst (save_package_tree st name pkgnode)))"
  using add_at_valid [of "contents st" "Inr pkgnode"]
  by (auto simp: save_package_tree_def Let_def split: prod.splits node.splits) (metis fst_conv)+

section \<open>The snapshot hash does not depend on the order of construction\<close>

lemma sort_keys_set_cong:
  assumes "distinct (map fst xs)" "distinct (map fst ys)" "set xs = set ys"
  shows "sort_keys xs = sort_keys ys"
  unfolding sort_keys_def
proof (rule sort_key_inj_key_eq)
  have "distinct xs" "distinct ys" using assms(1,2) by (auto simp: distinct_map)
  then have "mset xs = mset ys" using assms(3) by (simp add: set_eq_iff_mset_eq_distinct)
  then show "mset xs = mset (sort_key fst ys)" by simp
  show "inj_on fst (set xs)" using assms(1) by (simp add: distinct_map)
  show "sorted (map fst (sort_key fst ys))" by simp
qed

lemma assoc_subset_eq:
  assumes "distinct (map fst xs)" "distinct (map fst ys)" "length xs = length ys" "set xs \<subseteq> set ys"
  shows "set xs = set ys"
proof -
  have "distinct xs" "distinct ys" using assms(1,2) by (auto simp: distinct_map)
  then have "card (set xs) = card (set ys)" using assms(3) by (simp add: distinct_card)
  then show ?thesis using assms(4) by (simp add: card_subset_eq)
qed

lemma dump_metadata_eq:
  assumes "distinct (map fst md)" "distinct (map fst md')" "length md = length md'"
    and "list_all (\<lambda>kv. map_of md' (fst kv) = Some (snd kv)) md"
  shows "dump_metadata md = dump_metadata md'"
proof -
  have "set md \<subseteq> set md'"
  proof
    fix p assume "p \<in> set md"
    then have "map_of md' (fst p) = Some (snd p)" using assms(4) by (simp add: list_all_iff)
    then show "p \<in> set md'" using map_of_SomeD [of md' "fst p" "snd p"] by simp
  qed
  then have "set md = set md'" using assms(1-3) by (rule assoc_subset_eq [rotated 3])
  then have "set (map (\<lambda>kv. (fst kv, dump_value (snd kv))) md) = set (map (\<lambda>kv. (fst kv, dump_value (snd kv))) md')"
    by simp
  moreover have "distinct (map fst (map (\<lambda>kv. (fst kv, dump_value (snd kv))) md))"
    "distinct (map fst (map (\<lambda>kv. (fst kv, dump_value (snd kv))) md'))"
    using assms(1,2) by (simp_all add: comp_def)
  ultimately show ?thesis
    unfolding dump_metadata_def by (simp add: sort_keys_set_cong)
qed

lemma dump_node_eq:
  "valid_tree a \<Longrightarrow> valid_tree b \<Longrightarrow> node_eq a b \<Longrightarrow> dump a = dump b"
proof (induction a arbitrary: b)
  case (GroupNode cs)
  then obtain ds where b: "b = GroupNode ds" by (cases b) auto
  let ?f = "\<lambda>kc. (fst kc, dump (snd kc))"
  have dcs: "distinct (map fst cs)" and dds: "distinct (map fst ds)"
    and len: "length cs = length ds"
    using GroupNode.prems b by auto
  have sub: "set (map ?f cs) \<subseteq> set (map ?f ds)"
  proof
    fix p assume "p \<in> set (map ?f cs)"
    then obtain k c where kc: "(k, c) \<in> set cs" "p = (k, dump c)" by auto
    from GroupNode.prems(3) b kc(1) obtain d where d: "map_of ds k = Some d" "node_eq c d"
      by (auto simp: list_all_iff split: option.splits)
    have kd: "(k, d) \<in> set ds" using d(1) by (rule map_of_SomeD)
    have "valid_tree c" using GroupNode.prems(1) kc(1) by (auto simp: list_all_iff)
    moreover have "valid_tree d" using GroupNode.prems(2) b kd by (auto simp: list_all_iff)
    ultimately have "dump c = dump d"
      using GroupNode.IH [of "(k, c)" c d] kc(1) d(2) by simp
    then show "p \<in> set (map ?f ds)" using kd kc(2) by force
  qed
  have "set (map ?f cs) = set (map ?f ds)"
    by (rule assoc_subset_eq) (use dcs dds len sub in \<open>simp_all add: comp_def\<close>)
  then have "sort_keys (map ?f cs) = sort_keys (map ?f ds)"
    by (rule sort_keys_set_cong [rotated 2]) (use dcs dds in \<open>simp_all add: comp_def\<close>)
  then show ?case using b by simp
next
  case (TableNode hs f md)
  then obtain md' where b: "b = TableNode hs f md'" by (cases b) auto
  then show ?case using TableNode by (simp add: dump_metadata_eq)
next
  case (FileNode hs md)
  then obtain md' where b: "b = FileNode hs md'" by (cases b) auto
  then show ?case using FileNode by (simp add: dump_metadata_eq)
qed

text \<open>
  C1. Two packages whose contents are equal as trees (the same children under the same
  names with equal data, in whatever order the save operations inserted them) have the
  same snapshot hash. The save operations keep every dict's keys unique
  (\<open>save_group_valid\<close>, \<open>save_file_valid\<close>, \<open>save_package_tree_valid\<close>).
\<close>

theorem get_hash_order_independent:
  "valid_tree (contents st1) \<Longrightarrow> valid_tree (contents st2) \<Longrightarrow>
   node_eq (contents st1) (contents st2) \<Longrightarrow>
   get_hash digest st1 = get_hash digest st2"
  by (simp add: get_hash_def hash_contents_def dump_node_eq)

theorem get_hash_order_independent_witness:
  "contents (fst (save_group (fst (save_group (fresh_package ''u'' ''p'') ''a/x'')) ''b'')) =
     GroupNode [(''a'', GroupNode [(''x'', GroupNode [])]), (''b'', GroupNode [])] \<and>
   contents (fst (save_group (fst (save_group (fresh_package ''u'' ''p'') ''b'')) ''a/x'')) =
     GroupNode [(''b'', GroupNode []), (''a'', GroupNode [(''x'', GroupNode [])])] \<and>
   (\<forall>digest.
      get_hash digest (fst (save_group (fst (save_group (fresh_package ''u'' ''p'') ''a/x'')) ''b'')) =
      get_hash digest (fst (save_group (fst (save_group (fresh_package ''u'' ''p'') ''b'')) ''a/x'')))"
proof -
  let ?s1 = "fst (save_group (fst (save_group (fresh_package ''u'' ''p'') ''a/x'')) ''b'')"
  let ?s2 = "fst (save_group (fst (save_group (fresh_package ''u'' ''p'') ''b'')) ''a/x'')"
  have c1: "contents ?s1 = GroupNode [(''a'', GroupNode [(''x'', GroupNode [])]), (''b'', GroupNode [])]"
    by (simp add: save_group_def add_to_contents_def new_node_def TargetType_of_def
        lstrip_slash_def replace_slash_dot_def fresh_package_def Let_def)
  have c2: "contents ?s2 = GroupNode [(''b'', GroupNode []), (''a'', GroupNode [(''x'', GroupNode [])])]"
    by (simp add: save_group_def add_to_contents_def new_node_def TargetType_of_def
        lstrip_slash_def replace_slash_dot_def fresh_package_def Let_def)
  have v: "valid_tree (contents ?s1)" "valid_tree (contents ?s2)"
    unfolding c1 c2 by simp_all
  have e: "node_eq (contents ?s1) (contents ?s2)"
    unfolding c1 c2 by simp
  have "get_hash digest ?s1 = get_hash digest ?s2" for digest
    using get_hash_order_independent [OF v e] .
  with c1 c2 show ?thesis by blast
qed

section \<open>Saving and loading a snapshot\<close>

lemma group_fields:
  "sort_keys [(''type'', t), (''children'', c)] = [(''children'', c), (''type'', t)]"
  by (simp add: sort_keys_def)

lemma table_fields:
  "sort_keys [(''type'', t), (''hashes'', h), (''format'', f), (''metadata'', m)] =
     [(''format'', f), (''hashes'', h), (''metadata'', m), (''type'', t)]"
  by (simp add: sort_keys_def)

lemma file_fields:
  "sort_keys [(''type'', t), (''hashes'', h), (''metadata'', m)] =
     [(''hashes'', h), (''metadata'', m), (''type'', t)]"
  by (simp add: sort_keys_def)

lemma insort_key_map_fst:
  assumes "\<And>x. fst (f x) = fst x"
  shows "insort_key fst (f x) (map f ys) = map f (insort_key fst x ys)"
  using assms by (induction ys) auto

lemma sort_keys_map:
  assumes "\<And>x. fst (f x) = fst x"
  shows "sort_keys (map f xs) = map f (sort_keys xs)"
  unfolding sort_keys_def using assms
  by (induction xs) (simp_all add: insort_key_map_fst)

lemma those_map_Some: "those (map (\<lambda>x. Some (g x)) xs) = Some (map g xs)"
  by (induction xs) auto

lemma those_map_cong_Some:
  assumes "\<And>x. x \<in> set xs \<Longrightarrow> h x = Some (g x)"
  shows "those (map h xs) = Some (map g xs)"
  using assms by (induction xs) auto

lemma map_of_sort_keys: "distinct (map fst xs) \<Longrightarrow> map_of (sort_keys xs) = map_of xs"
proof -
  assume d: "distinct (map fst xs)"
  have "distinct (map fst (sort_keys xs))"
    using d by (simp add: sort_keys_def distinct_map inj_on_def) 
  moreover have "set (sort_keys xs) = set xs" by (simp add: sort_keys_def)
  ultimately show ?thesis using d by (simp add: map_of_inject_set)
qed

lemma canon_valid_eq: "valid_tree n \<Longrightarrow> node_eq (canon n) n"
proof (induction n)
  case (GroupNode cs)
  let ?g = "\<lambda>kc. (fst kc, canon (snd kc))"
  have d: "distinct (map fst cs)" using GroupNode.prems by simp
  have "list_all (\<lambda>kc. case map_of cs (fst kc) of None \<Rightarrow> False | Some d \<Rightarrow> node_eq (snd kc) d)
      (sort_keys (map ?g cs))"
    unfolding list_all_iff
  proof
    fix p assume "p \<in> set (sort_keys (map ?g cs))"
    then obtain k c where kc: "(k, c) \<in> set cs" "p = (k, canon c)"
      by (auto simp: sort_keys_def)
    have "map_of cs k = Some c" using d kc(1) by simp
    moreover have "valid_tree c" using GroupNode.prems kc(1) by (auto simp: list_all_iff)
    then have "node_eq (canon c) c" using GroupNode.IH [of "(k, c)" c] kc(1) by simp
    ultimately show "case map_of cs (fst p) of None \<Rightarrow> False | Some d \<Rightarrow> node_eq (snd p) d"
      using kc(2) by simp
  qed
  then show ?case by (simp add: sort_keys_def)
next
  case (TableNode hs f md)
  then have "map_of md (fst kv) = Some (snd kv)" if "kv \<in> set md" for kv
    using that by (cases kv) simp
  then show ?case by (simp add: list_all_iff sort_keys_def)
next
  case (FileNode hs md)
  then have "map_of md (fst kv) = Some (snd kv)" if "kv \<in> set md" for kv
    using that by (cases kv) simp
  then show ?case by (simp add: list_all_iff sort_keys_def)
qed

lemma dict_set_new: "k \<notin> fst ` set d \<Longrightarrow> dict_set d k v = d @ [(k, v)]"
  by (induction d) auto

lemma dict_of_foldl:
  "distinct (map fst (acc @ kvs)) \<Longrightarrow>
   foldl (\<lambda>d kv. dict_set d (fst kv) (snd kv)) acc kvs = acc @ kvs"
proof (induction kvs arbitrary: acc)
  case Nil
  then show ?case by simp
next
  case (Cons kv kvs)
  have "fst kv \<notin> fst ` set acc" using Cons.prems by auto
  then have "dict_set acc (fst kv) (snd kv) = acc @ [kv]"
    by (simp add: dict_set_new)
  then show ?case using Cons.IH [of "acc @ [kv]"] Cons.prems by simp
qed

lemma dict_of_distinct: "distinct (map fst kvs) \<Longrightarrow> dict_of kvs = kvs"
  using dict_of_foldl [of "[]" kvs] by (simp add: dict_of_def)

lemma collect_members_ok:
  assumes "\<And>x. x \<in> set xs \<Longrightarrow> h x = Inr (g x)"
  shows "collect_members (map (\<lambda>x. (fst x, h x)) xs) = Inr (map (\<lambda>x. (fst x, g x)) xs)"
  using assms by (induction xs) auto

lemma load_hashes: "json_load hook (JList (map JStr hs)) = Inr (OList (map OStr hs))"
proof -
  have "collect (map (json_load hook) (map JStr hs)) = Inr (map OStr hs)"
    by (induction hs) auto
  then show ?thesis by simp
qed

lemma as_hashes_strs: "as_hashes (OList (map OStr hs)) = Some hs"
proof -
  have "those (map as_str (map OStr hs)) = Some hs"
    by (induction hs) auto
  then show ?thesis by simp
qed

lemma distinct_sort_keys: "distinct (map fst (sort_keys xs)) = distinct (map fst xs)"
  by (simp add: sort_keys_def distinct_map)

lemma set_sort_keys: "set (sort_keys xs) = set xs"
  by (simp add: sort_keys_def)

lemma load_metadata:
  assumes "distinct (map fst md)" "list_all (\<lambda>kv. fst kv \<noteq> ''type'') md"
  shows "json_load decode_node (dump_metadata md) =
    Inr (ODict (map (\<lambda>kv. (fst kv, obj_of_value (snd kv))) (sort_keys md)))"
proof -
  let ?f = "\<lambda>kv. (fst kv, dump_value (snd kv))"
  let ?g = "\<lambda>kv. (fst kv, obj_of_value (snd kv))"
  have v: "json_load decode_node (dump_value v) = Inr (obj_of_value v)" for v
    by (cases v) auto
  have s: "sort_keys (map ?f md) = map ?f (sort_keys md)" by (rule sort_keys_map) simp
  have c: "collect_members (map ((\<lambda>kj. (fst kj, json_load decode_node (snd kj))) \<circ> ?f) (sort_keys md)) =
      Inr (map ?g (sort_keys md))"
    using collect_members_ok [of "sort_keys md" "\<lambda>x. json_load decode_node (dump_value (snd x))"
        "\<lambda>x. obj_of_value (snd x)"]
    by (simp add: comp_def v)
  have d: "dict_of (map ?g (sort_keys md)) = map ?g (sort_keys md)"
    by (rule dict_of_distinct) (simp add: comp_def distinct_sort_keys assms(1))
  have "''type'' \<notin> fst ` set (map ?g (sort_keys md))"
    using assms(2) by (auto simp: list_all_iff set_sort_keys)
  then have t: "map_of (map ?g (sort_keys md)) ''type'' = None"
    by (simp add: map_of_eq_None_iff)
  show ?thesis
    by (simp add: dump_metadata_def s c d t decode_node_def)
qed

lemma as_metadata_obj:
  "as_metadata (ODict (map (\<lambda>kv. (fst kv, obj_of_value (snd kv))) xs)) = Some xs"
proof -
  have v: "as_value (obj_of_value v) = Some v" for v by (cases v) auto
  have "those (map (\<lambda>kv. map_option (Pair (fst kv)) (as_value (snd kv)))
      (map (\<lambda>kv. (fst kv, obj_of_value (snd kv))) xs)) = Some (map (\<lambda>x. x) xs)"
    unfolding map_map by (rule those_map_cong_Some) (simp add: v)
  then show ?thesis by simp
qed

lemma json_load_dump:
  "valid_tree n \<Longrightarrow> no_type_key n \<Longrightarrow> json_load decode_node (dump n) = Inr (ONode (canon n))"
proof (induction n)
  case (GroupNode cs)
  let ?f = "\<lambda>kc. (fst kc, dump (snd kc))"
  let ?g = "\<lambda>kc. (fst kc, canon (snd kc))"
  let ?o = "\<lambda>kc. (fst kc, ONode (canon (snd kc)))"
  have dcs: "distinct (map fst cs)" using GroupNode.prems by simp
  have s: "sort_keys (map ?f cs) = map ?f (sort_keys cs)" by (rule sort_keys_map) simp
  have s': "sort_keys (map ?g cs) = map ?g (sort_keys cs)" by (rule sort_keys_map) simp
  have c: "collect_members (map ((\<lambda>kj. (fst kj, json_load decode_node (snd kj))) \<circ> ?f) (sort_keys cs)) =
      Inr (map ?o (sort_keys cs))"
  proof -
    have "json_load decode_node (dump (snd x)) = Inr (ONode (canon (snd x)))"
      if "x \<in> set (sort_keys cs)" for x
    proof -
      obtain k c where x: "x = (k, c)" by (cases x)
      have m: "(k, c) \<in> set cs" using that x by (simp add: set_sort_keys)
      then have "valid_tree c" "no_type_key c"
        using GroupNode.prems by (auto simp: list_all_iff)
      then show ?thesis using GroupNode.IH [of "(k, c)" c] m x by simp
    qed
    then show ?thesis
      using collect_members_ok [of "sort_keys cs" "\<lambda>x. json_load decode_node (dump (snd x))"
          "\<lambda>x. ONode (canon (snd x))"]
      by (simp add: comp_def)
  qed
  have d: "dict_of (map ?o (sort_keys cs)) = map ?o (sort_keys cs)"
    by (rule dict_of_distinct) (simp add: comp_def distinct_sort_keys dcs)
  have "''type'' \<notin> fst ` set (map ?o (sort_keys cs))"
    using GroupNode.prems(2) by (auto simp: list_all_iff set_sort_keys)
  then have t: "map_of (map ?o (sort_keys cs)) ''type'' = None"
    by (simp add: map_of_eq_None_iff)
  have ch: "json_load decode_node (JObj (map ?f (sort_keys cs))) = Inr (ODict (map ?o (sort_keys cs)))"
    by (simp add: c d t decode_node_def)
  have a: "as_children (ODict (map ?o (sort_keys cs))) = Some (map ?g (sort_keys cs))"
    unfolding as_children.simps map_map by (rule those_map_cong_Some) simp
  have top: "json_load decode_node
      (JObj [(''children'', JObj (map ?f (sort_keys cs))), (''type'', JStr ''GROUP'')]) =
      decode_node (dict_of [(''children'', ODict (map ?o (sort_keys cs))), (''type'', OStr ''GROUP'')])"
    by (subst json_load.simps(4)) (simp add: ch del: json_load.simps(4))
  have dec: "decode_node (dict_of [(''children'', ODict (map ?o (sort_keys cs))), (''type'', OStr ''GROUP'')]) =
      Inr (ONode (GroupNode (map ?g (sort_keys cs))))"
    by (simp add: dict_of_def decode_node_def make_node_def a del: as_children.simps)
  show ?case
    by (simp add: group_fields s s' top dec del: json_load.simps(4))
next
  case (TableNode hs f md)
  let ?m = "ODict (map (\<lambda>kv. (fst kv, obj_of_value (snd kv))) (sort_keys md))"
  have l: "json_load decode_node (dump_metadata md) = Inr ?m"
    using TableNode by (simp add: load_metadata)
  have top: "json_load decode_node
      (JObj [(''format'', JStr f), (''hashes'', JList (map JStr hs)),
             (''metadata'', dump_metadata md), (''type'', JStr ''TABLE'')]) =
      decode_node (dict_of [(''format'', OStr f), (''hashes'', OList (map OStr hs)),
                            (''metadata'', ?m), (''type'', OStr ''TABLE'')])"
    by (subst json_load.simps(4)) (simp add: l load_hashes del: json_load.simps(3,4))
  have dec: "decode_node (dict_of [(''format'', OStr f), (''hashes'', OList (map OStr hs)),
                            (''metadata'', ?m), (''type'', OStr ''TABLE'')]) =
      Inr (ONode (TableNode hs f (sort_keys md)))"
    by (simp add: dict_of_def decode_node_def make_node_def as_hashes_strs as_metadata_obj
        del: as_metadata.simps as_hashes.simps)
  show ?case
    by (simp add: table_fields top dec del: json_load.simps(3,4))
next
  case (FileNode hs md)
  let ?m = "ODict (map (\<lambda>kv. (fst kv, obj_of_value (snd kv))) (sort_keys md))"
  have l: "json_load decode_node (dump_metadata md) = Inr ?m"
    using FileNode by (simp add: load_metadata)
  have top: "json_load decode_node
      (JObj [(''hashes'', JList (map JStr hs)),
             (''metadata'', dump_metadata md), (''type'', JStr ''FILE'')]) =
      decode_node (dict_of [(''hashes'', OList (map OStr hs)),
                            (''metadata'', ?m), (''type'', OStr ''FILE'')])"
    by (subst json_load.simps(4)) (simp add: l load_hashes del: json_load.simps(3,4))
  have dec: "decode_node (dict_of [(''hashes'', OList (map OStr hs)),
                            (''metadata'', ?m), (''type'', OStr ''FILE'')]) =
      Inr (ONode (FileNode hs (sort_keys md)))"
    by (simp add: dict_of_def decode_node_def make_node_def as_hashes_strs as_metadata_obj
        del: as_metadata.simps as_hashes.simps)
  show ?case
    by (simp add: file_fields top dec del: json_load.simps(3,4))
qed

text \<open>
  For a tree without a child or a metadata key called \<^verbatim>\<open>type\<close>, a package object that
  is opened on the directory after \<^verbatim>\<open>save_contents\<close> (whatever its own contents were)
  loads the saved tree with every dict in key order, under the hash of \<^verbatim>\<open>get_hash\<close> and
  through the \<^verbatim>\<open>latest\<close> tag; that tree is equal to the saved one.
\<close>

lemma save_load_roundtrip_without_type_key:
  assumes "valid_tree (contents st)" "no_type_key (contents st)"
  shows "load_contents ((save_contents digest st)\<lparr>contents := c0\<rparr>) (Some (get_hash digest st)) =
      Inr (ONode (canon (contents st))) \<and>
    load_contents ((save_contents digest st)\<lparr>contents := c0\<rparr>) None =
      Inr (ONode (canon (contents st))) \<and>
    node_eq (canon (contents st)) (contents st)"
  using assms
  by (simp add: save_contents_unfold load_contents_def json_load_dump canon_valid_eq)


section \<open>Further properties of the code\<close>

text \<open>
  \<^verbatim>\<open>save_contents\<close> opens the snapshot file for writing also when a snapshot with
  that hash exists. When the \<^verbatim>\<open>latest\<close> tag already names the hash of the contents and
  the call is interrupted right after the file is opened, the tag names a truncated
  snapshot and \<^verbatim>\<open>_load_contents\<close> fails on it.
\<close>

theorem save_contents_truncates_tagged_snapshot:
  "latest_tag st = Some (get_hash digest st) \<Longrightarrow>
   latest_tag (save_contents_interrupted digest 1 st) = Some (get_hash digest st) \<and>
   snapshots (save_contents_interrupted digest 1 st) (get_hash digest st) = Some Partial \<and>
   load_contents (save_contents_interrupted digest 1 st) None = Inl (ValueError [])"
  by (simp add: save_contents_interrupted_def save_contents_steps_def run_steps_def
      load_contents_def Let_def)

theorem save_contents_truncates_tagged_snapshot_witness:
  "load_contents (save_contents (\<lambda>d. ''h1'') (fresh_package ''u'' ''p'')) None = Inr (ONode (GroupNode [])) \<and>
   load_contents
     (save_contents_interrupted (\<lambda>d. ''h1'') 1 (save_contents (\<lambda>d. ''h1'') (fresh_package ''u'' ''p'')))
     None = Inl (ValueError [])"
proof -
  let ?st = "save_contents (\<lambda>d. ''h1'') (fresh_package ''u'' ''p'')"
  have t: "latest_tag ?st = Some (get_hash (\<lambda>d. ''h1'') ?st)"
    by (simp add: save_contents_unfold get_hash_def hash_contents_def)
  have "load_contents ?st None = Inr (ONode (GroupNode []))"
    by (simp add: save_contents_unfold load_contents_def get_hash_def hash_contents_def
        fresh_package_def sort_keys_def dict_of_def decode_node_def make_node_def)
  then show ?thesis
    using save_contents_truncates_tagged_snapshot [OF t] by simp
qed

text \<open>
  \<^verbatim>\<open>_add_to_contents\<close> creates the missing groups on the path before it looks at
  the target: with an unrecognized target it raises \<^verbatim>\<open>PackageException\<close> and the groups
  it created stay in the contents.
\<close>

theorem add_to_contents_bad_target_keeps_groups:
  "add_to_contents (GroupNode []) ''a.b'' [] [] PNone ''table'' None =
     (GroupNode [(''a'', GroupNode [])],
      Some (PackageException ''Unrecognized target {tgt}'' [''table'']))"
  by (simp add: add_to_contents_def new_node_def TargetType_of_def)

text \<open>
  \<^verbatim>\<open>save_package_tree\<close> splits its name on slashes only: a dotted name is one
  child name there, where \<^verbatim>\<open>save_group\<close> makes nested groups of it.
\<close>

theorem save_package_tree_keeps_dotted_name:
  "contents (fst (save_package_tree (fresh_package ''u'' ''p'') ''x.y'' (GroupNode []))) =
     GroupNode [(''x.y'', GroupNode [])] \<and>
   contents (fst (save_group (fresh_package ''u'' ''p'') ''x.y'')) =
     GroupNode [(''x'', GroupNode [(''y'', GroupNode [])])]"
  by (simp add: save_package_tree_def save_group_def add_to_contents_def new_node_def
      TargetType_of_def lstrip_slash_def replace_slash_dot_def fresh_package_def Let_def)

end
